theory Spec2Isabelle
  imports Main "HOL-Library.Char_ord" "HOL-Library.List_Lexorder" "HOL-Library.Multiset"
    "HOL-Library.AList"
begin

section \<open>Go values shared by the packages\<close>

text \<open>
  A Go \<^verbatim>\<open>error\<close> built by \<^verbatim>\<open>errors.New\<close> or \<^verbatim>\<open>fmt.Errorf\<close> is its message; the
  \<^verbatim>\<open>nil\<close> error is \<open>None\<close> of \<open>error option\<close>. Strings are byte lists, ordered as Go
  orders them (bytewise, a proper prefix first).

  A call either returns or panics. A nil pointer dereference and a failed type assertion
  are the panics of the code below; a pointer that may be \<^verbatim>\<open>nil\<close> is an \<open>option\<close>.
\<close>

type_synonym error = string

datatype 'a outcome = Panic | Return 'a

fun returned :: "'a outcome \<Rightarrow> bool" where
  "returned Panic = False"
| "returned (Return v) = True"

text \<open>
  A Go map is kept as an association list with one entry for each key, read with
  \<open>map_of\<close>. The order of the list is the order in which \<^verbatim>\<open>range\<close> visits the map, which
  Go leaves unspecified: a statement about a loop over a map is made for every order.
\<close>

section \<open>package schema: the provider\<close>

text \<open>
  Modelled from the spec: the declaration of \<^verbatim>\<open>terraform.ResourceState\<close> is not among the
  sources. The spec gives it an \<^verbatim>\<open>ID\<close>, a \<^verbatim>\<open>Type\<close> and \<^verbatim>\<open>Attributes\<close> from flat dotted path to
  string; the provider reads \<^verbatim>\<open>Type\<close> only.
\<close>

record ResourceState =
  ID :: string
  Type :: string
  Attributes :: "(string \<times> string) list"

text \<open>\<^verbatim>\<open>terraform.ResourceType\<close>, as \<^verbatim>\<open>Resources\<close> builds it: a struct with the field \<^verbatim>\<open>Name\<close>.\<close>

record ResourceType =
  Name :: string

text \<open>
  \<^verbatim>\<open>type Provider struct\<close>. The schema map \<open>'sch\<close>, the resource \<open>'r\<close>, the
  \<^verbatim>\<open>ResourceData\<close> \<open>'rd\<close> and the meta value \<open>'m\<close> (an \<^verbatim>\<open>interface{}\<close>) are opaque to the
  provider. \<^verbatim>\<open>ConfigureFunc\<close> is a function value that may be \<^verbatim>\<open>nil\<close>; it returns the pair
  \<^verbatim>\<open>(interface{}, error)\<close>.
\<close>

record ('sch, 'r, 'rd, 'm) Provider =
  Schema :: 'sch
  ResourcesMap :: "(string \<times> 'r) list"
  ConfigureFunc :: "('rd \<Rightarrow> 'm \<times> error option) option"
  meta :: 'm

text \<open>
  The methods of \<^verbatim>\<open>schemaMap\<close> and of \<^verbatim>\<open>*Resource\<close> that the provider calls are defined in
  files that are not among the sources. They are parameters of the model: \<open>sm...\<close> stands
  for \<^verbatim>\<open>schemaMap(p.Schema).\<close>..., \<open>r...\<close> for the method of a \<^verbatim>\<open>*Resource\<close>. Each returns what
  the Go method returns; a \<^verbatim>\<open>*terraform.ResourceDiff\<close> is \<open>'d option\<close>, the configuration
  \<open>'c\<close> is only handed on. The parameters are functions: a call of theirs returns.
\<close>

record ('sch, 'r, 'rd, 'c, 'd, 'm) externals =
  smInternalValidate :: "'sch \<Rightarrow> error option"
  smValidate :: "'sch \<Rightarrow> 'c \<Rightarrow> string list \<times> error list"
  smDiff :: "'sch \<Rightarrow> ResourceState option \<Rightarrow> 'c \<Rightarrow> 'd option \<times> error option"
  smData :: "'sch \<Rightarrow> ResourceState option \<Rightarrow> 'd option \<Rightarrow> 'rd \<times> error option"
  rInternalValidate :: "'r \<Rightarrow> error option"
  rValidate :: "'r \<Rightarrow> 'c \<Rightarrow> string list \<times> error list"
  rApply :: "'r \<Rightarrow> ResourceState \<Rightarrow> 'd option \<Rightarrow> 'm \<Rightarrow> ResourceState option \<times> error option"
  rDiff :: "'r \<Rightarrow> ResourceState \<Rightarrow> 'c \<Rightarrow> 'd option \<times> error option"
  rRefresh :: "'r \<Rightarrow> ResourceState \<Rightarrow> 'm \<Rightarrow> ResourceState option \<times> error option"

text \<open>
  The loop of \<^verbatim>\<open>InternalValidate\<close> over \<^verbatim>\<open>p.ResourcesMap\<close>: the first resource whose
  \<^verbatim>\<open>InternalValidate\<close> fails ends it with \<^verbatim>\<open>fmt.Errorf("%s: %s", k, err)\<close>.
\<close>

fun rangeInternalValidate :: "('r \<Rightarrow> error option) \<Rightarrow> (string \<times> 'r) list \<Rightarrow> error option" where
  "rangeInternalValidate f [] = None"
| "rangeInternalValidate f ((k, r) # rest) =
     (case f r of
        Some err \<Rightarrow> Some (k @ '': '' @ err)
      | None \<Rightarrow> rangeInternalValidate f rest)"

definition Provider_InternalValidate ::
  "('sch, 'r, 'rd, 'c, 'd, 'm) externals \<Rightarrow> ('sch, 'r, 'rd, 'm) Provider option
     \<Rightarrow> error option outcome" where
  "Provider_InternalValidate x p =
     (case p of
        None \<Rightarrow> Return (Some ''provider is nil'')
      | Some p \<Rightarrow>
          (case smInternalValidate x (Schema p) of
             Some err \<Rightarrow> Return (Some err)
           | None \<Rightarrow> Return (rangeInternalValidate (rInternalValidate x) (ResourcesMap p))))"

definition Provider_Meta :: "('sch, 'r, 'rd, 'm) Provider option \<Rightarrow> 'm outcome" where
  "Provider_Meta p = (case p of None \<Rightarrow> Panic | Some p \<Rightarrow> Return (meta p))"

text \<open>\<^verbatim>\<open>SetMeta\<close> and \<^verbatim>\<open>Configure\<close> assign to \<^verbatim>\<open>p.meta\<close>: they return the provider they leave.\<close>

definition Provider_SetMeta ::
  "('sch, 'r, 'rd, 'm) Provider option \<Rightarrow> 'm \<Rightarrow> ('sch, 'r, 'rd, 'm) Provider outcome" where
  "Provider_SetMeta p v = (case p of None \<Rightarrow> Panic | Some p \<Rightarrow> Return (p\<lparr>meta := v\<rparr>))"

definition Provider_Validate ::
  "('sch, 'r, 'rd, 'c, 'd, 'm) externals \<Rightarrow> ('sch, 'r, 'rd, 'm) Provider option \<Rightarrow> 'c
     \<Rightarrow> (string list \<times> error list) outcome" where
  "Provider_Validate x p c =
     (case p of None \<Rightarrow> Panic | Some p \<Rightarrow> Return (smValidate x (Schema p) c))"

definition Provider_ValidateResource ::
  "('sch, 'r, 'rd, 'c, 'd, 'm) externals \<Rightarrow> ('sch, 'r, 'rd, 'm) Provider option \<Rightarrow> string \<Rightarrow> 'c
     \<Rightarrow> (string list \<times> error list) outcome" where
  "Provider_ValidateResource x p t c =
     (case p of
        None \<Rightarrow> Panic
      | Some p \<Rightarrow>
          (case map_of (ResourcesMap p) t of
             None \<Rightarrow> Return ([], [''Provider doesn't support resource: '' @ t])
           | Some r \<Rightarrow> Return (rValidate x r c)))"

definition Provider_Configure ::
  "('sch, 'r, 'rd, 'c, 'd, 'm) externals \<Rightarrow> ('sch, 'r, 'rd, 'm) Provider option \<Rightarrow> 'c
     \<Rightarrow> (error option \<times> ('sch, 'r, 'rd, 'm) Provider) outcome" where
  "Provider_Configure x p c =
     (case p of
        None \<Rightarrow> Panic
      | Some p \<Rightarrow>
          (case ConfigureFunc p of
             None \<Rightarrow> Return (None, p)
           | Some f \<Rightarrow>
               (case smDiff x (Schema p) None c of
                  (diff, Some err) \<Rightarrow> Return (Some err, p)
                | (diff, None) \<Rightarrow>
                    (case smData x (Schema p) None diff of
                       (data, Some err) \<Rightarrow> Return (Some err, p)
                     | (data, None) \<Rightarrow>
                         (case f data of
                            (m, Some err) \<Rightarrow> Return (Some err, p)
                          | (m, None) \<Rightarrow> Return (None, p\<lparr>meta := m\<rparr>))))))"

text \<open>What \<^verbatim>\<open>Meta()\<close> returns on the provider a call of \<^verbatim>\<open>Configure\<close> has left.\<close>

definition Meta_after ::
  "(error option \<times> ('sch, 'r, 'rd, 'm) Provider) outcome \<Rightarrow> 'm outcome" where
  "Meta_after res = (case res of Panic \<Rightarrow> Panic | Return (err, p) \<Rightarrow> Provider_Meta (Some p))"

definition Provider_Apply ::
  "('sch, 'r, 'rd, 'c, 'd, 'm) externals \<Rightarrow> ('sch, 'r, 'rd, 'm) Provider option
     \<Rightarrow> ResourceState option \<Rightarrow> 'd option \<Rightarrow> (ResourceState option \<times> error option) outcome" where
  "Provider_Apply x p s d =
     (case p of
        None \<Rightarrow> Panic
      | Some p \<Rightarrow>
          (case s of
             None \<Rightarrow> Panic
           | Some s \<Rightarrow>
               (case map_of (ResourcesMap p) (Type s) of
                  None \<Rightarrow> Return (None, Some (''unknown resource type: '' @ Type s))
                | Some r \<Rightarrow> Return (rApply x r s d (meta p)))))"

definition Provider_Diff ::
  "('sch, 'r, 'rd, 'c, 'd, 'm) externals \<Rightarrow> ('sch, 'r, 'rd, 'm) Provider option
     \<Rightarrow> ResourceState option \<Rightarrow> 'c \<Rightarrow> ('d option \<times> error option) outcome" where
  "Provider_Diff x p s c =
     (case p of
        None \<Rightarrow> Panic
      | Some p \<Rightarrow>
          (case s of
             None \<Rightarrow> Panic
           | Some s \<Rightarrow>
               (case map_of (ResourcesMap p) (Type s) of
                  None \<Rightarrow> Return (None, Some (''unknown resource type: '' @ Type s))
                | Some r \<Rightarrow> Return (rDiff x r s c))))"

definition Provider_Refresh ::
  "('sch, 'r, 'rd, 'c, 'd, 'm) externals \<Rightarrow> ('sch, 'r, 'rd, 'm) Provider option
     \<Rightarrow> ResourceState option \<Rightarrow> (ResourceState option \<times> error option) outcome" where
  "Provider_Refresh x p s =
     (case p of
        None \<Rightarrow> Panic
      | Some p \<Rightarrow>
          (case s of
             None \<Rightarrow> Panic
           | Some s \<Rightarrow>
               (case map_of (ResourcesMap p) (Type s) of
                  None \<Rightarrow> Return (None, Some (''unknown resource type: '' @ Type s))
                | Some r \<Rightarrow> Return (rRefresh x r s (meta p)))))"

text \<open>
  \<^verbatim>\<open>Resources\<close>: the keys in the order of the loop over the map, \<^verbatim>\<open>sort.Strings\<close>, one
  \<^verbatim>\<open>ResourceType\<close> for each key. \<^verbatim>\<open>sort.Strings\<close> sorts ascending in the order of Go's
  strings, a linear order, so its result is the one sorted permutation, \<open>sort\<close>.
\<close>

definition Provider_Resources ::
  "('sch, 'r, 'rd, 'm) Provider option \<Rightarrow> ResourceType list outcome" where
  "Provider_Resources p =
     (case p of
        None \<Rightarrow> Panic
      | Some p \<Rightarrow>
          (let keys = sort (map fst (ResourcesMap p))
           in Return (map (\<lambda>k. \<lparr>Name = k\<rparr>) keys)))"

text \<open>
  The operations a caller of the provider can start, and the provider each leaves. Only
  \<^verbatim>\<open>Configure\<close> and \<^verbatim>\<open>SetMeta\<close> assign to a field of the receiver; every other method
  reads it, so the provider it leaves is the one it found.
\<close>

datatype ('c, 'd, 'm) operation =
    OpInternalValidate
  | OpValidate 'c
  | OpValidateResource string 'c
  | OpConfigure 'c
  | OpApply "ResourceState option" "'d option"
  | OpDiff "ResourceState option" 'c
  | OpRefresh "ResourceState option"
  | OpResources
  | OpMeta
  | OpSetMeta 'm

fun unchanged :: "'p \<Rightarrow> 'a outcome \<Rightarrow> 'p outcome" where
  "unchanged p Panic = Panic"
| "unchanged p (Return v) = Return p"

fun perform ::
  "('sch, 'r, 'rd, 'c, 'd, 'm) externals \<Rightarrow> ('sch, 'r, 'rd, 'm) Provider
     \<Rightarrow> ('c, 'd, 'm) operation \<Rightarrow> ('sch, 'r, 'rd, 'm) Provider outcome" where
  "perform x p OpInternalValidate = unchanged p (Provider_InternalValidate x (Some p))"
| "perform x p (OpValidate c) = unchanged p (Provider_Validate x (Some p) c)"
| "perform x p (OpValidateResource t c) = unchanged p (Provider_ValidateResource x (Some p) t c)"
| "perform x p (OpConfigure c) =
     (case Provider_Configure x (Some p) c of Panic \<Rightarrow> Panic | Return (err, p') \<Rightarrow> Return p')"
| "perform x p (OpApply s d) = unchanged p (Provider_Apply x (Some p) s d)"
| "perform x p (OpDiff s c) = unchanged p (Provider_Diff x (Some p) s c)"
| "perform x p (OpRefresh s) = unchanged p (Provider_Refresh x (Some p) s)"
| "perform x p OpResources = unchanged p (Provider_Resources (Some p))"
| "perform x p OpMeta = unchanged p (Provider_Meta (Some p))"
| "perform x p (OpSetMeta v) = Provider_SetMeta (Some p) v"

fun run ::
  "('sch, 'r, 'rd, 'c, 'd, 'm) externals \<Rightarrow> ('sch, 'r, 'rd, 'm) Provider
     \<Rightarrow> ('c, 'd, 'm) operation list \<Rightarrow> ('sch, 'r, 'rd, 'm) Provider outcome" where
  "run x p [] = Return p"
| "run x p (opn # opns) =
     (case perform x p opn of Panic \<Rightarrow> Panic | Return p' \<Rightarrow> run x p' opns)"

fun writesMeta :: "('c, 'd, 'm) operation \<Rightarrow> bool" where
  "writesMeta (OpConfigure c) = True"
| "writesMeta (OpSetMeta v) = True"
| "writesMeta opn = False"

text \<open>Inputs of the examples below.\<close>

definition ex_externals :: "(unit, nat, nat, nat, nat, nat) externals" where
  "ex_externals =
     \<lparr>smInternalValidate = (\<lambda>sch. None),
      smValidate = (\<lambda>sch c. ([], [])),
      smDiff = (\<lambda>sch s c. if c = 0 then (None, Some ''diff failed'') else (Some c, None)),
      smData = (\<lambda>sch s d. case d of None \<Rightarrow> (0, Some ''data failed'')
                                   | Some n \<Rightarrow> if n = 1 then (0, Some ''data failed'') else (n, None)),
      rInternalValidate = (\<lambda>r. None),
      rValidate = (\<lambda>r c. ([], [])),
      rApply = (\<lambda>r s d m. (Some s, None)),
      rDiff = (\<lambda>r s c. (None, None)),
      rRefresh = (\<lambda>r s m. (Some s, None))\<rparr>"

definition ex_configure :: "nat \<Rightarrow> nat \<times> error option" where
  "ex_configure data = (if data = 2 then (0, Some ''configure failed'') else (data, None))"

definition ex_provider :: "(unit, nat, nat, nat) Provider" where
  "ex_provider =
     \<lparr>Schema = (),
      ResourcesMap = [(''web'', 1), (''app'', 2)],
      ConfigureFunc = Some ex_configure,
      meta = 7\<rparr>"

definition ex_state :: "string \<Rightarrow> ResourceState" where
  "ex_state t = \<lparr>ID = ''i-1'', Type = t, Attributes = [(''name'', ''a'')]\<rparr>"

section \<open>package schema: Resource.Apply\<close>

text \<open>
  Modelled from the spec: \<^verbatim>\<open>Resource.Apply\<close>, the \<^verbatim>\<open>InstanceDiff\<close> it takes and the
  \<^verbatim>\<open>ResourceData\<close> it hands to the callbacks are defined in files that are not among the
  sources. The definitions below follow the spec's data model and its section on
  orchestration.

  An \<^verbatim>\<open>InstanceDiff\<close> maps attribute paths to \<^verbatim>\<open>AttributeDiff\<close>s and may carry a
  \<^verbatim>\<open>Destroy\<close> marker; the empty diff has no entry and no marker.
\<close>

record AttributeDiff =
  Old :: string
  New :: string
  NewComputed :: bool
  NewRemoved :: bool
  RequiresNew :: bool

record InstanceDiff =
  Destroy :: bool
  Entries :: "(string \<times> AttributeDiff) list"

definition emptyDiff :: InstanceDiff where
  "emptyDiff = \<lparr>Destroy = False, Entries = []\<rparr>"

text \<open>
  Modelled from the spec: the spec has no nil diff; a nil diff pointer is read as the
  empty diff.
\<close>

fun diffOf :: "InstanceDiff option \<Rightarrow> InstanceDiff" where
  "diffOf None = emptyDiff"
| "diffOf (Some d) = d"

definition isEmptyDiff :: "InstanceDiff \<Rightarrow> bool" where
  "isEmptyDiff d = (\<not> Destroy d \<and> Entries d = [])"

definition requiresNew :: "InstanceDiff \<Rightarrow> bool" where
  "requiresNew d = list_ex (\<lambda>(path, a). RequiresNew a) (Entries d)"

text \<open>
  Modelled from the spec: a \<^verbatim>\<open>ResourceData\<close> is a facade over a state, a diff and the
  pending writes, with the resource's id (\<^verbatim>\<open>Id\<close>, \<^verbatim>\<open>SetId\<close>). A callback reads and writes
  through it and returns an error or nil: it is a function from the \<^verbatim>\<open>ResourceData\<close> and the
  meta to the \<^verbatim>\<open>ResourceData\<close> it leaves and the error.
\<close>

record ResourceData =
  rdState :: ResourceState
  rdDiff :: InstanceDiff
  rdWrites :: "(string \<times> string) list"
  rdId :: string

type_synonym 'm callback = "ResourceData \<Rightarrow> 'm \<Rightarrow> ResourceData \<times> error option"

record 'm Resource =
  Create :: "'m callback"
  Read :: "'m callback"
  Update :: "'m callback"
  Delete :: "'m callback"

datatype crud = CallCreate | CallRead | CallUpdate | CallDelete

definition newData :: "ResourceState \<Rightarrow> InstanceDiff \<Rightarrow> ResourceData" where
  "newData s d = \<lparr>rdState = s, rdDiff = d, rdWrites = [], rdId = ID s\<rparr>"

text \<open>
  Modelled from the spec: the state a \<^verbatim>\<open>ResourceData\<close> projects to after a successful
  callback: the id, and the attributes layered as pending writes over the diff's new
  values over the state's. After a failed callback the writes are discarded and the id is
  kept.
\<close>

definition projected :: "ResourceData \<Rightarrow> ResourceState" where
  "projected rd =
     (rdState rd)\<lparr>ID := rdId rd,
       Attributes := rdWrites rd @ map (\<lambda>(path, a). (path, New a)) (Entries (rdDiff rd))
                       @ Attributes (rdState rd)\<rparr>"

definition partially :: "ResourceData \<Rightarrow> ResourceState" where
  "partially rd = (rdState rd)\<lparr>ID := rdId rd\<rparr>"

type_synonym applied = "(ResourceState option \<times> error option) \<times> crud list"

text \<open>
  Modelled from the spec: after a successful \<^verbatim>\<open>Create\<close> or \<^verbatim>\<open>Update\<close>, call \<^verbatim>\<open>Read\<close>, then
  return the projected state; a \<^verbatim>\<open>Read\<close> that leaves an empty id means the resource is
  gone.
\<close>

definition readBack :: "'m Resource \<Rightarrow> ResourceData \<Rightarrow> 'm \<Rightarrow> crud list \<Rightarrow> applied" where
  "readBack r rd m calls =
     (case Read r rd m of
        (rd', Some err) \<Rightarrow> ((Some (partially rd'), Some err), calls @ [CallRead])
      | (rd', None) \<Rightarrow>
          if rdId rd' = [] then ((None, None), calls @ [CallRead])
          else ((Some (projected rd'), None), calls @ [CallRead]))"

definition createPath :: "'m Resource \<Rightarrow> ResourceState \<Rightarrow> InstanceDiff \<Rightarrow> 'm \<Rightarrow> crud list \<Rightarrow> applied" where
  "createPath r s d m calls =
     (case Create r (newData s d) m of
        (rd, Some err) \<Rightarrow> ((Some (partially rd), Some err), calls @ [CallCreate])
      | (rd, None) \<Rightarrow> readBack r rd m (calls @ [CallCreate]))"

definition updatePath :: "'m Resource \<Rightarrow> ResourceState \<Rightarrow> InstanceDiff \<Rightarrow> 'm \<Rightarrow> applied" where
  "updatePath r s d m =
     (case Update r (newData s d) m of
        (rd, Some err) \<Rightarrow> ((Some (partially rd), Some err), [CallUpdate])
      | (rd, None) \<Rightarrow> readBack r rd m [CallUpdate])"

definition destroyPath :: "'m Resource \<Rightarrow> ResourceState \<Rightarrow> InstanceDiff \<Rightarrow> 'm \<Rightarrow> applied" where
  "destroyPath r s d m =
     (case Delete r (newData s d) m of
        (rd, Some err) \<Rightarrow> ((Some (partially rd), Some err), [CallDelete])
      | (rd, None) \<Rightarrow> ((Some (s\<lparr>ID := []\<rparr>), None), [CallDelete]))"

definition replacePath :: "'m Resource \<Rightarrow> ResourceState \<Rightarrow> InstanceDiff \<Rightarrow> 'm \<Rightarrow> applied" where
  "replacePath r s d m =
     (case Delete r (newData s emptyDiff) m of
        (rd, Some err) \<Rightarrow> ((Some (partially rd), Some err), [CallDelete])
      | (rd, None) \<Rightarrow> createPath r (s\<lparr>ID := [], Attributes := []\<rparr>) d m [CallDelete])"

text \<open>
  Modelled from the spec: the steps of \<^verbatim>\<open>Resource.Apply(state, diff, meta)\<close> in the spec's
  order: (1) an empty id and a non-empty diff create; (2) else an empty diff is a no-op
  that returns the state unchanged; (3) else an entry with \<^verbatim>\<open>RequiresNew\<close> deletes, then creates; (4) else update.
  The destroy path (5) is the one of a diff that carries the \<^verbatim>\<open>Destroy\<close> marker, which
  the steps (1) to (4) do not mention: it is tried before them. The second component
  lists the callbacks invoked, in order.
\<close>

definition Resource_Apply_run ::
  "'m Resource \<Rightarrow> ResourceState \<Rightarrow> InstanceDiff option \<Rightarrow> 'm \<Rightarrow> applied" where
  "Resource_Apply_run r s dp m =
     (let d = diffOf dp in
      if Destroy d then destroyPath r s d m
      else if ID s = [] \<and> \<not> isEmptyDiff d then createPath r s d m []
      else if isEmptyDiff d then ((Some s, None), [])
      else if requiresNew d then replacePath r s d m
      else updatePath r s d m)"

definition Resource_Apply ::
  "'m Resource \<Rightarrow> ResourceState \<Rightarrow> InstanceDiff option \<Rightarrow> 'm
     \<Rightarrow> ResourceState option \<times> error option" where
  "Resource_Apply r s dp m = fst (Resource_Apply_run r s dp m)"

text \<open>Inputs of the examples for \<^verbatim>\<open>Apply\<close>: a resource whose callbacks set an id and succeed.\<close>

definition ex_resource :: "nat Resource" where
  "ex_resource =
     \<lparr>Create = (\<lambda>rd m. (rd\<lparr>rdId := ''new''\<rparr>, None)),
      Read = (\<lambda>rd m. (rd, None)),
      Update = (\<lambda>rd m. (rd, None)),
      Delete = (\<lambda>rd m. (rd\<lparr>rdId := []\<rparr>, None))\<rparr>"

definition ex_apply_externals :: "(unit, nat Resource, nat, nat, InstanceDiff, nat) externals" where
  "ex_apply_externals =
     \<lparr>smInternalValidate = (\<lambda>sch. None),
      smValidate = (\<lambda>sch c. ([], [])),
      smDiff = (\<lambda>sch s c. (None, None)),
      smData = (\<lambda>sch s d. (0, None)),
      rInternalValidate = (\<lambda>r. None),
      rValidate = (\<lambda>r c. ([], [])),
      rApply = Resource_Apply,
      rDiff = (\<lambda>r s c. (None, None)),
      rRefresh = (\<lambda>r s m. (Some s, None))\<rparr>"

definition ex_apply_provider :: "(unit, nat Resource, nat, nat) Provider" where
  "ex_apply_provider =
     \<lparr>Schema = (), ResourcesMap = [(''app'', ex_resource)], ConfigureFunc = None, meta = 7\<rparr>"

section \<open>package aws: structure helpers\<close>

text \<open>
  A value of type \<^verbatim>\<open>interface{}\<close>, by its dynamic type: \<^verbatim>\<open>nil\<close>, a \<^verbatim>\<open>string\<close>, an \<^verbatim>\<open>int\<close>, a
  \<^verbatim>\<open>bool\<close>, a \<^verbatim>\<open>[]interface{}\<close>, a \<^verbatim>\<open>map[string]interface{}\<close> or a \<^verbatim>\<open>map[string]string\<close>.
  A type assertion \<^verbatim>\<open>v.(T)\<close> panics when the dynamic type of \<^verbatim>\<open>v\<close> is not \<^verbatim>\<open>T\<close>; indexing a
  map with a key it does not hold gives the zero value, \<^verbatim>\<open>nil\<close>.
\<close>

datatype iface =
    INil
  | IString string
  | IInt int
  | IBool bool
  | ISlice "iface list"
  | IMap "(string \<times> iface) list"
  | IStringMap "(string \<times> string) list"

fun assertString :: "iface \<Rightarrow> string outcome" where
  "assertString (IString s) = Return s"
| "assertString v = Panic"

fun assertMap :: "iface \<Rightarrow> (string \<times> iface) list outcome" where
  "assertMap (IMap m) = Return m"
| "assertMap v = Panic"

definition index :: "(string \<times> iface) list \<Rightarrow> string \<Rightarrow> iface" where
  "index m k = (case map_of m k of None \<Rightarrow> INil | Some v \<Rightarrow> v)"

fun andThen :: "'a outcome \<Rightarrow> ('a \<Rightarrow> 'b outcome) \<Rightarrow> 'b outcome" where
  "andThen Panic f = Panic"
| "andThen (Return v) f = f v"

text \<open>
  The structs of goamz that the helpers build, with the fields the code sets or reads:
  \<^verbatim>\<open>elb.Listener\<close>, \<^verbatim>\<open>ec2.UserSecurityGroup\<close> and \<^verbatim>\<open>ec2.IPPerm\<close>.
\<close>

record Listener =
  InstancePort :: int
  InstanceProtocol :: string
  LoadBalancerPort :: int
  Protocol :: string

record UserSecurityGroup =
  Id :: string

record IPPerm =
  Protocol :: string
  FromPort :: int
  ToPort :: int
  SourceIPs :: "string list"
  SourceGroups :: "UserSecurityGroup list"

text \<open>
  \<^verbatim>\<open>expandListeners\<close>. \<^verbatim>\<open>strconv.ParseInt(s, 0, 0)\<close> belongs to Go's library and is the
  parameter \<open>parseInt\<close>: it returns a number and an error, the error nil when \<open>s\<close> parses.
  The second \<^verbatim>\<open>:=\<close> assigns to the \<^verbatim>\<open>err\<close> the first one declared, so the \<^verbatim>\<open>err\<close> that is
  tested is the one of \<^verbatim>\<open>lb_port\<close>.
\<close>

fun expandListeners_loop ::
  "(string \<Rightarrow> int \<times> error option) \<Rightarrow> iface list \<Rightarrow> Listener list
     \<Rightarrow> (Listener list option \<times> error option) outcome" where
  "expandListeners_loop parseInt [] listeners = Return (Some listeners, None)"
| "expandListeners_loop parseInt (listener # rest) listeners =
     andThen (assertMap listener) (\<lambda>newL.
     andThen (assertString (index newL ''instance_port'')) (\<lambda>ip.
       let (instancePort, err) = parseInt ip in
     andThen (assertString (index newL ''lb_port'')) (\<lambda>lp.
       let (lbPort, err) = parseInt lp in
       (case err of
          Some e \<Rightarrow> Return (None, Some e)
        | None \<Rightarrow>
            andThen (assertString (index newL ''instance_protocol'')) (\<lambda>instanceProtocol.
            andThen (assertString (index newL ''lb_protocol'')) (\<lambda>protocol.
              let l = \<lparr>InstancePort = instancePort,
                       InstanceProtocol = instanceProtocol,
                       LoadBalancerPort = lbPort,
                       Listener.Protocol = protocol\<rparr>
              in expandListeners_loop parseInt rest (listeners @ [l])))))))"

definition expandListeners ::
  "(string \<Rightarrow> int \<times> error option) \<Rightarrow> iface list
     \<Rightarrow> (Listener list option \<times> error option) outcome" where
  "expandListeners parseInt configured = expandListeners_loop parseInt configured []"

text \<open>One configured listener, as \<^verbatim>\<open>flatmap.Expand\<close> hands it over: a map of four strings.\<close>

definition listenerConfig :: "string \<Rightarrow> string \<Rightarrow> string \<Rightarrow> string \<Rightarrow> iface" where
  "listenerConfig instance_port instance_protocol lb_port lb_protocol =
     IMap [(''instance_port'', IString instance_port),
           (''instance_protocol'', IString instance_protocol),
           (''lb_port'', IString lb_port),
           (''lb_protocol'', IString lb_protocol)]"

text \<open>
  For the examples: a parser of unsigned decimal numerals, which fails as
  \<^verbatim>\<open>strconv.ParseInt\<close> does on a string with a character that is not a digit.
\<close>

fun decimal :: "nat \<Rightarrow> string \<Rightarrow> nat option" where
  "decimal n [] = Some n"
| "decimal n (c # cs) =
     (if CHR ''0'' \<le> c \<and> c \<le> CHR ''9'' then decimal (10 * n + (of_char c - 48)) cs else None)"

definition ex_parseInt :: "string \<Rightarrow> int \<times> error option" where
  "ex_parseInt s =
     (case (if s = [] then None else decimal 0 s) of
        Some n \<Rightarrow> (int n, None)
      | None \<Rightarrow> (0, Some (''strconv.ParseInt: parsing '' @ s @ '': invalid syntax'')))"

text \<open>
  \<^verbatim>\<open>ipPermKey\<close>, and the three orders handed to \<^verbatim>\<open>sort.Sort\<close>.
\<close>

record ipPermKey =
  Protocol :: string
  FromPort :: int
  ToPort :: int

definition sortableGroups_Less :: "UserSecurityGroup \<Rightarrow> UserSecurityGroup \<Rightarrow> bool" where
  "sortableGroups_Less gi gj = (Id gi < Id gj)"

definition sortableHosts_Less :: "string \<Rightarrow> string \<Rightarrow> bool" where
  "sortableHosts_Less gi gj = (gi < gj)"

definition sortableRules_Less :: "IPPerm \<Rightarrow> IPPerm \<Rightarrow> bool" where
  "sortableRules_Less si sj =
     (IPPerm.Protocol si < IPPerm.Protocol sj \<or> IPPerm.FromPort si < IPPerm.FromPort sj
      \<or> IPPerm.ToPort si < IPPerm.ToPort sj)"

text \<open>
  \<^verbatim>\<open>sort.Sort\<close> belongs to Go's library. On a slice of at most 7 elements (12 since
  Go 1.19) it is the insertion sort below, written as in the library:
  \<^verbatim>\<open>for i := a + 1; i < b; i++ { for j := i; j > a && data.Less(j, j-1); j-- { data.Swap(j, j-1) } }\<close>.
  \<open>insertBack\<close> is the inner loop, on the sorted prefix read from its right end. With a
  linear order as \<^verbatim>\<open>Less\<close> the result is the sorted permutation whatever the length.
\<close>

fun insertBack :: "('a \<Rightarrow> 'a \<Rightarrow> bool) \<Rightarrow> 'a \<Rightarrow> 'a list \<Rightarrow> 'a list" where
  "insertBack lt x [] = [x]"
| "insertBack lt x (y # prefix) =
     (if lt x y then y # insertBack lt x prefix else x # y # prefix)"

definition insertionSort :: "('a \<Rightarrow> 'a \<Rightarrow> bool) \<Rightarrow> 'a list \<Rightarrow> 'a list" where
  "insertionSort lt data = rev (foldl (\<lambda>prefix x. insertBack lt x prefix) [] data)"

text \<open>
  The body of the first loop of \<^verbatim>\<open>canonicaliseIPPerms\<close>, with
  \<^verbatim>\<open>key := ipPermKey{p.Protocol, p.FromPort, p.ToPort}\<close> as \<open>keyOf p\<close>: look the key up, store a new rule
  for a new key, append the groups and the IPs to the rule. The map holds pointers, so the
  appends change the rule in the map: \<open>AList.update\<close> replaces it in place, and adds a new
  key at the end.
\<close>

definition keyOf :: "IPPerm \<Rightarrow> ipPermKey" where
  "keyOf p = \<lparr>ipPermKey.Protocol = IPPerm.Protocol p,
              ipPermKey.FromPort = IPPerm.FromPort p,
              ipPermKey.ToPort = IPPerm.ToPort p\<rparr>"

definition canonicalise_step :: "(ipPermKey \<times> IPPerm) list \<Rightarrow> IPPerm \<Rightarrow> (ipPermKey \<times> IPPerm) list" where
  "canonicalise_step rules p =
     (let key = keyOf p;
          rule = (case map_of rules key of
                    Some rule \<Rightarrow> rule
                  | None \<Rightarrow> \<lparr>IPPerm.Protocol = IPPerm.Protocol p,
                             IPPerm.FromPort = IPPerm.FromPort p,
                             IPPerm.ToPort = IPPerm.ToPort p,
                             SourceIPs = [], SourceGroups = []\<rparr>);
          rule = (if length (SourceGroups p) > 0
                  then rule\<lparr>SourceGroups := SourceGroups rule @ SourceGroups p\<rparr> else rule);
          rule = (if length (SourceIPs p) > 0
                  then rule\<lparr>SourceIPs := SourceIPs rule @ SourceIPs p\<rparr> else rule)
      in AList.update key rule rules)"

text \<open>
  \<^verbatim>\<open>canonicaliseIPPerms\<close>. The second loop ranges over the map \<^verbatim>\<open>rules\<close>: \<open>visit\<close> is the
  order in which Go visits its entries, a permutation of them that the language leaves
  open. The strings of a rule are sorted by a linear order, the groups by their \<^verbatim>\<open>Id\<close>; the
  rules are sorted by \<^verbatim>\<open>sortableRules.Less\<close>.
\<close>

definition canonicaliseIPPerms ::
  "((ipPermKey \<times> IPPerm) list \<Rightarrow> (ipPermKey \<times> IPPerm) list) \<Rightarrow> IPPerm list \<Rightarrow> IPPerm list" where
  "canonicaliseIPPerms visit input =
     (let rules = foldl canonicalise_step [] input;
          res = map (\<lambda>(key, r). r\<lparr>SourceIPs := insertionSort sortableHosts_Less (SourceIPs r),
                                   SourceGroups := insertionSort sortableGroups_Less (SourceGroups r)\<rparr>)
                    (visit rules)
      in insertionSort sortableRules_Less res)"

text \<open>
  What the claim on \<^verbatim>\<open>canonicaliseIPPerms\<close> says of the rule for a key: the protocol and the
  ports of the key, with the source IPs and the source groups of all input entries that
  have this key, sorted.
\<close>

definition canonicalRule :: "IPPerm list \<Rightarrow> ipPermKey \<Rightarrow> IPPerm" where
  "canonicalRule input key =
     \<lparr>IPPerm.Protocol = ipPermKey.Protocol key,
      IPPerm.FromPort = ipPermKey.FromPort key,
      IPPerm.ToPort = ipPermKey.ToPort key,
      SourceIPs = sort (concat (map SourceIPs (filter (\<lambda>p. keyOf p = key) input))),
      SourceGroups = insertionSort sortableGroups_Less
                       (concat (map SourceGroups (filter (\<lambda>p. keyOf p = key) input)))\<rparr>"

text \<open>Inputs of the examples: two rules, and the two orders of a map with two entries.\<close>

definition ex_ssh :: IPPerm where
  "ex_ssh = \<lparr>IPPerm.Protocol = ''udp'', IPPerm.FromPort = 22, IPPerm.ToPort = 22,
            SourceIPs = [''10.0.0.0/8''], SourceGroups = []\<rparr>"

definition ex_web :: IPPerm where
  "ex_web = \<lparr>IPPerm.Protocol = ''tcp'', IPPerm.FromPort = 80, IPPerm.ToPort = 80,
            SourceIPs = [''0.0.0.0/0''], SourceGroups = []\<rparr>"

section \<open>package config: the configuration and its validation\<close>

text \<open>
  \<^verbatim>\<open>RawConfig\<close> and the implementations of \<^verbatim>\<open>InterpolatedVariable\<close> are declared in files
  that are not among the sources; they are given the fields and methods that \<^verbatim>\<open>Validate\<close>
  and \<^verbatim>\<open>allVariables\<close> read. A \<^verbatim>\<open>*UserVariable\<close> has a \<^verbatim>\<open>Name\<close>; a \<^verbatim>\<open>*ResourceVariable\<close> has a
  \<^verbatim>\<open>Type\<close>, a \<^verbatim>\<open>Name\<close>, the flag \<^verbatim>\<open>Multi\<close> and the string its method \<^verbatim>\<open>FullKey()\<close> returns;
  \<open>OtherVariable\<close> is a value of any other dynamic type. A \<^verbatim>\<open>RawConfig\<close> has the maps \<^verbatim>\<open>Raw\<close>
  and \<^verbatim>\<open>Variables\<close>.

  The pointers in the slices and fields of a \<^verbatim>\<open>Config\<close> are taken to be non-nil and
  pairwise different.
\<close>

datatype InterpolatedVariable =
    UserVariable string
  | ResourceVariable string string bool string
  | OtherVariable

record RawConfig =
  Raw :: "(string \<times> iface) list"
  Variables :: "(string \<times> InterpolatedVariable) list"

record ProviderConfig =
  Name :: string
  RawConfig :: RawConfig

record Provisioner =
  Type :: string
  RawConfig :: RawConfig
  ConnInfo :: RawConfig

text \<open>\<^verbatim>\<open>config.Resource\<close> (the name \<open>Resource\<close> is the one of package schema above).\<close>

record config_Resource =
  Name :: string
  Type :: string
  Count :: int
  RawConfig :: RawConfig
  Provisioners :: "Provisioner list"
  DependsOn :: "string list"

record Variable =
  Name :: string
  Default :: iface
  Description :: string

record Output =
  Name :: string
  RawConfig :: RawConfig

record Config =
  ProviderConfigs :: "ProviderConfig list"
  Resources :: "config_Resource list"
  Variables :: "Variable list"
  Outputs :: "Output list"
  unknownKeys :: "string list"

datatype VariableType = VariableTypeUnknown | VariableTypeString | VariableTypeMap

text \<open>
  What \<^verbatim>\<open>Validate\<close> takes from outside the sources. \<^verbatim>\<open>mapstructure.WeakDecode\<close> into a
  \<^verbatim>\<open>string\<close> and into a \<^verbatim>\<open>map[string]string\<close>: the decoded value, or \<open>None\<close> for an error.
  \<open>walk\<close> is \<^verbatim>\<open>reflectwalk.Walk\<close> with the \<^verbatim>\<open>interpolationWalker\<close> of \<^verbatim>\<open>Validate\<close>: whether the
  callback ran (it sets \<^verbatim>\<open>interp\<close>), and the error returned. The three \<open>range...\<close> are the
  orders in which the three loops over the maps \<^verbatim>\<open>vars\<close> and \<^verbatim>\<open>resources\<close> built inside
  \<^verbatim>\<open>Validate\<close> visit their entries; \<open>permutes\<close> says that such an order visits each entry
  once.
\<close>

record config_externals =
  weakDecodeString :: "iface \<Rightarrow> string option"
  weakDecodeMap :: "iface \<Rightarrow> (string \<times> string) list option"
  walk :: "iface \<Rightarrow> bool \<times> error option"
  rangeVars :: "(string \<times> InterpolatedVariable list) list \<Rightarrow> (string \<times> InterpolatedVariable list) list"
  rangeResources :: "(string \<times> config_Resource) list \<Rightarrow> (string \<times> config_Resource) list"
  rangeVarsAgain :: "(string \<times> InterpolatedVariable list) list \<Rightarrow> (string \<times> InterpolatedVariable list) list"

definition permutes :: "('a list \<Rightarrow> 'a list) \<Rightarrow> bool" where
  "permutes visit = (\<forall>entries. mset (visit entries) = mset entries)"

definition quoted :: "string \<Rightarrow> string" where
  "quoted s = [CHR 0x27] @ s @ [CHR 0x27]"

definition Resource_Id :: "config_Resource \<Rightarrow> string" where
  "Resource_Id r = config_Resource.Type r @ ''.'' @ config_Resource.Name r"

text \<open>
  \<^verbatim>\<open>Variable.Type()\<close> stores the decoded value in \<^verbatim>\<open>v.Default\<close>: it returns the type and the
  variable it leaves.
\<close>

definition Variable_Type :: "config_externals \<Rightarrow> Variable \<Rightarrow> VariableType \<times> Variable" where
  "Variable_Type x v =
     (if Default v = INil then (VariableTypeString, v)
      else case weakDecodeString x (Default v) of
        Some strVal \<Rightarrow> (VariableTypeString, v\<lparr>Default := IString strVal\<rparr>)
      | None \<Rightarrow>
          (case weakDecodeMap x (Default v) of
             Some m \<Rightarrow> (VariableTypeMap, v\<lparr>Default := IStringMap m\<rparr>)
           | None \<Rightarrow> (VariableTypeUnknown, v)))"

text \<open>
  \<^verbatim>\<open>allVariables\<close>: \<^verbatim>\<open>result[source] = append(result[source], v)\<close> for the variables of each
  provider configuration, resource and output.
\<close>

definition appendVariable ::
  "string \<Rightarrow> (string \<times> InterpolatedVariable list) list \<Rightarrow> InterpolatedVariable
     \<Rightarrow> (string \<times> InterpolatedVariable list) list" where
  "appendVariable source result v =
     AList.update source ((case map_of result source of None \<Rightarrow> [] | Some vs \<Rightarrow> vs) @ [v]) result"

definition appendVariables ::
  "string \<Rightarrow> RawConfig \<Rightarrow> (string \<times> InterpolatedVariable list) list
     \<Rightarrow> (string \<times> InterpolatedVariable list) list" where
  "appendVariables source rc result =
     foldl (appendVariable source) result (map snd (RawConfig.Variables rc))"

definition Config_allVariables :: "Config \<Rightarrow> (string \<times> InterpolatedVariable list) list" where
  "Config_allVariables c =
     (let result = [];
          result = foldl (\<lambda>result pc.
                      appendVariables (''provider config '' @ quoted (ProviderConfig.Name pc))
                        (ProviderConfig.RawConfig pc) result)
                    result (ProviderConfigs c);
          result = foldl (\<lambda>result rc.
                      appendVariables (''resource '' @ quoted (Resource_Id rc))
                        (config_Resource.RawConfig rc) result)
                    result (Resources c);
          result = foldl (\<lambda>result out.
                      appendVariables (''output '' @ quoted (Output.Name out))
                        (Output.RawConfig out) result)
                    result (Outputs c)
      in result)"

text \<open>The bodies of the loops of \<^verbatim>\<open>Validate\<close>: each gives the errors it appends to \<^verbatim>\<open>errs\<close>.\<close>

definition checkVariable :: "config_externals \<Rightarrow> Variable \<Rightarrow> error list" where
  "checkVariable x v =
     (case Variable_Type x v of
        (VariableTypeUnknown, v') \<Rightarrow>
          [''Variable '' @ quoted (Variable.Name v') @ '': must be string or mapping'']
      | (t, v') \<Rightarrow>
          (case walk x (Default v') of
             (interp, None) \<Rightarrow>
               if interp
               then [''Variable '' @ quoted (Variable.Name v') @ '': cannot contain interpolations'']
               else []
           | (interp, Some err) \<Rightarrow> []))"

fun checkUserVariable ::
  "(string \<times> Variable) list \<Rightarrow> string \<Rightarrow> InterpolatedVariable \<Rightarrow> error list" where
  "checkUserVariable varMap source (UserVariable name) =
     (case map_of varMap name of
        None \<Rightarrow> [source @ '': unknown variable referenced: '' @ name]
      | Some v \<Rightarrow> [])"
| "checkUserVariable varMap source v = []"

text \<open>
  The loop over \<^verbatim>\<open>c.Resources\<close> that fills the maps \<^verbatim>\<open>resources\<close> and \<^verbatim>\<open>dupped\<close>: a repeated id
  is reported once, and the later resource replaces the earlier one in \<^verbatim>\<open>resources\<close>.
\<close>

definition registerResource ::
  "(string \<times> config_Resource) list \<times> string list \<times> error list \<Rightarrow> config_Resource
     \<Rightarrow> (string \<times> config_Resource) list \<times> string list \<times> error list" where
  "registerResource st r =
     (case st of (resources, dupped, errs) \<Rightarrow>
        (let (dupped, errs) =
               (if map_of resources (Resource_Id r) \<noteq> None \<and> Resource_Id r \<notin> set dupped
                then (dupped @ [Resource_Id r],
                      errs @ [Resource_Id r @ '': resource repeated multiple times''])
                else (dupped, errs))
         in (AList.update (Resource_Id r) r resources, dupped, errs)))"

definition checkResource ::
  "(string \<times> config_Resource) list \<Rightarrow> string \<times> config_Resource \<Rightarrow> error list" where
  "checkResource resources entry =
     (case entry of (n, r) \<Rightarrow>
        (if Count r < 1 then [n @ '': count must be greater than or equal to 1''] else [])
        @ concat (map (\<lambda>d. case map_of resources d of
                              None \<Rightarrow> [n @ '': resource depends on non-existent resource '' @ quoted d]
                            | Some r' \<Rightarrow> [])
                      (DependsOn r)))"

fun checkResourceVariable ::
  "(string \<times> config_Resource) list \<Rightarrow> string \<Rightarrow> InterpolatedVariable \<Rightarrow> error list" where
  "checkResourceVariable resources source (ResourceVariable type name multi fullKey) =
     (let id = type @ ''.'' @ name in
      case map_of resources id of
        None \<Rightarrow>
          [source @ '': unknown resource '' @ quoted id @ '' referenced in variable '' @ fullKey]
      | Some r \<Rightarrow>
          if Count r > 1 \<and> \<not> multi
          then [source @ '': variable '' @ quoted fullKey
                  @ '' must specify index for multi-count resource '' @ id]
          else [])"
| "checkResourceVariable resources source v = []"

definition checkOutput :: "Output \<Rightarrow> error list" where
  "checkOutput out =
     (if list_ex (\<lambda>(k, v). k \<noteq> ''value'') (Raw (Output.RawConfig out))
      then [Output.Name out @ '': output should only have 'value' field'']
      else [])"

text \<open>
  \<^verbatim>\<open>Validate\<close>, loop by loop, in the order of the source. A loop appends what its body
  gives to \<^verbatim>\<open>errs\<close> and goes on to the next element. \<open>Config_Validate_errs\<close> is \<^verbatim>\<open>errs\<close> at the
  end; \<^verbatim>\<open>Validate\<close> returns a \<^verbatim>\<open>multierror.Error\<close> holding it when it is not empty, else nil.
\<close>

definition Config_Validate_errs :: "config_externals \<Rightarrow> Config \<Rightarrow> error list" where
  "Config_Validate_errs x c =
     (let errs = [];
          errs = foldl (\<lambda>errs k. errs @ [''Unknown root level key: '' @ k]) errs (unknownKeys c);
          vars = Config_allVariables c;
          varMap = foldl (\<lambda>varMap v. AList.update (Variable.Name v) v varMap) [] (Config.Variables c);
          errs = foldl (\<lambda>errs v. errs @ checkVariable x v) errs (Config.Variables c);
          errs = foldl (\<lambda>errs (source, vs).
                    foldl (\<lambda>errs v. errs @ checkUserVariable varMap source v) errs vs)
                  errs (rangeVars x vars);
          (resources, dupped, errs) = foldl registerResource ([], [], errs) (Resources c);
          errs = foldl (\<lambda>errs entry. errs @ checkResource resources entry)
                  errs (rangeResources x resources);
          errs = foldl (\<lambda>errs (source, vs).
                    foldl (\<lambda>errs v. errs @ checkResourceVariable resources source v) errs vs)
                  errs (rangeVarsAgain x vars);
          errs = foldl (\<lambda>errs out. errs @ checkOutput out) errs (Outputs c)
      in errs)"

definition Config_Validate :: "config_externals \<Rightarrow> Config \<Rightarrow> error list option" where
  "Config_Validate x c =
     (let errs = Config_Validate_errs x c in if length errs > 0 then Some errs else None)"

text \<open>
  What the claim on \<^verbatim>\<open>Validate\<close> names, stated on the configuration: the references of a
  configuration with their sources, the resource declared last under an id, and the set
  of messages, one for each violation.
\<close>

definition references :: "Config \<Rightarrow> (string \<times> InterpolatedVariable) set" where
  "references c =
     {(''provider config '' @ quoted (ProviderConfig.Name pc), v) | pc v.
        pc \<in> set (ProviderConfigs c) \<and> v \<in> snd ` set (RawConfig.Variables (ProviderConfig.RawConfig pc))}
     \<union> {(''resource '' @ quoted (Resource_Id rc), v) | rc v.
        rc \<in> set (Resources c) \<and> v \<in> snd ` set (RawConfig.Variables (config_Resource.RawConfig rc))}
     \<union> {(''output '' @ quoted (Output.Name out), v) | out v.
        out \<in> set (Outputs c) \<and> v \<in> snd ` set (RawConfig.Variables (Output.RawConfig out))}"

definition declared :: "Config \<Rightarrow> string \<Rightarrow> config_Resource option" where
  "declared c = map_of (rev (map (\<lambda>r. (Resource_Id r, r)) (Resources c)))"

definition violations :: "config_externals \<Rightarrow> Config \<Rightarrow> error set" where
  "violations x c =
     {''Unknown root level key: '' @ k | k. k \<in> set (unknownKeys c)}
     \<union> {''Variable '' @ quoted (Variable.Name v) @ '': must be string or mapping'' | v.
          v \<in> set (Config.Variables c) \<and> fst (Variable_Type x v) = VariableTypeUnknown}
     \<union> {''Variable '' @ quoted (Variable.Name v) @ '': cannot contain interpolations'' | v.
          v \<in> set (Config.Variables c) \<and> fst (Variable_Type x v) \<noteq> VariableTypeUnknown
          \<and> walk x (Default (snd (Variable_Type x v))) = (True, None)}
     \<union> {source @ '': unknown variable referenced: '' @ name | source name.
          (source, UserVariable name) \<in> references c
          \<and> name \<notin> Variable.Name ` set (Config.Variables c)}
     \<union> {id @ '': resource repeated multiple times'' | id.
          1 < count_list (map Resource_Id (Resources c)) id}
     \<union> {id @ '': count must be greater than or equal to 1'' | id r.
          declared c id = Some r \<and> Count r < 1}
     \<union> {id @ '': resource depends on non-existent resource '' @ quoted d | id r d.
          declared c id = Some r \<and> d \<in> set (DependsOn r) \<and> declared c d = None}
     \<union> {source @ '': unknown resource '' @ quoted (type @ ''.'' @ name)
            @ '' referenced in variable '' @ fullKey | source type name multi fullKey.
          (source, ResourceVariable type name multi fullKey) \<in> references c
          \<and> declared c (type @ ''.'' @ name) = None}
     \<union> {source @ '': variable '' @ quoted fullKey
            @ '' must specify index for multi-count resource '' @ (type @ ''.'' @ name)
          | source type name fullKey r.
          (source, ResourceVariable type name False fullKey) \<in> references c
          \<and> declared c (type @ ''.'' @ name) = Some r \<and> Count r > 1}
     \<union> {Output.Name out @ '': output should only have 'value' field'' | out.
          out \<in> set (Outputs c) \<and> (\<exists>k \<in> fst ` set (Raw (Output.RawConfig out)). k \<noteq> ''value'')}"

text \<open>
  For the proofs: the references a map from sources to variable lists holds, and the two
  results of the loop over \<^verbatim>\<open>c.Resources\<close>, the map \<^verbatim>\<open>resources\<close> and the errors it appends.
\<close>

definition pairs :: "('k \<times> 'v list) list \<Rightarrow> ('k \<times> 'v) set" where
  "pairs entries = {(k, v). \<exists>vs. (k, vs) \<in> set entries \<and> v \<in> set vs}"

definition registered :: "config_Resource list \<Rightarrow> (string \<times> config_Resource) list" where
  "registered rs = fst (foldl registerResource ([], [], []) rs)"

definition repeated :: "config_Resource list \<Rightarrow> error list" where
  "repeated rs = snd (snd (foldl registerResource ([], [], []) rs))"

text \<open>Inputs of the examples: decoders for strings and string maps, and two configurations.\<close>

definition ex_config_externals :: config_externals where
  "ex_config_externals =
     \<lparr>weakDecodeString = (\<lambda>v. case v of IString s \<Rightarrow> Some s | _ \<Rightarrow> None),
      weakDecodeMap = (\<lambda>v. case v of IStringMap m \<Rightarrow> Some m | _ \<Rightarrow> None),
      walk = (\<lambda>v. (False, None)),
      rangeVars = id,
      rangeResources = rev,
      rangeVarsAgain = rev\<rparr>"

definition ex_raw :: RawConfig where
  "ex_raw = \<lparr>Raw = [], RawConfig.Variables = []\<rparr>"

definition ex_instance :: "int \<Rightarrow> config_Resource" where
  "ex_instance n =
     \<lparr>config_Resource.Name = ''web'', config_Resource.Type = ''aws_instance'', Count = n,
      config_Resource.RawConfig = ex_raw, Provisioners = [], DependsOn = []\<rparr>"

definition ex_shadowed :: Config where
  "ex_shadowed =
     \<lparr>ProviderConfigs = [], Resources = [ex_instance 0, ex_instance 1],
      Config.Variables = [], Outputs = [], unknownKeys = []\<rparr>"

definition ex_config :: Config where
  "ex_config =
     \<lparr>ProviderConfigs = [],
      Resources =
        [\<lparr>config_Resource.Name = ''db'', config_Resource.Type = ''aws_instance'', Count = 0,
          config_Resource.RawConfig =
            \<lparr>Raw = [], RawConfig.Variables = [(''var.size'', UserVariable ''size'')]\<rparr>,
          Provisioners = [], DependsOn = [''aws_elb.lb'']\<rparr>],
      Config.Variables = [\<lparr>Variable.Name = ''zone'', Default = IInt 1, Description = []\<rparr>],
      Outputs =
        [\<lparr>Output.Name = ''ip'',
          Output.RawConfig = \<lparr>Raw = [(''value'', INil), (''extra'', INil)], RawConfig.Variables = []\<rparr>\<rparr>],
      unknownKeys = [''provisioner'']\<rparr>"
section \<open>The provider: Configure and the meta\<close>

text \<open>
  C8. \<^verbatim>\<open>Configure\<close> leaves the meta as it was whenever \<^verbatim>\<open>ConfigureFunc\<close> does not run to a
  successful end. With a nil \<^verbatim>\<open>ConfigureFunc\<close> it returns nil and the provider is untouched;
  when \<^verbatim>\<open>Diff\<close>, \<^verbatim>\<open>Data\<close> or \<^verbatim>\<open>ConfigureFunc\<close> returns an error, \<^verbatim>\<open>Configure\<close> returns that
  error, the provider is untouched, and \<^verbatim>\<open>Meta()\<close> returns what it returned before.
\<close>

theorem Configure_failure_keeps_meta:
  "(ConfigureFunc p = None \<longrightarrow>
      Provider_Configure x (Some p) c = Return (None, p) \<and>
      Meta_after (Provider_Configure x (Some p) c) = Provider_Meta (Some p))
   \<and> (ConfigureFunc p = Some f \<and> smDiff x (Schema p) None c = (d, Some e) \<longrightarrow>
      Provider_Configure x (Some p) c = Return (Some e, p) \<and>
      Meta_after (Provider_Configure x (Some p) c) = Provider_Meta (Some p))
   \<and> (ConfigureFunc p = Some f \<and> smDiff x (Schema p) None c = (d, None) \<and>
       smData x (Schema p) None d = (rd, Some e) \<longrightarrow>
      Provider_Configure x (Some p) c = Return (Some e, p) \<and>
      Meta_after (Provider_Configure x (Some p) c) = Provider_Meta (Some p))
   \<and> (ConfigureFunc p = Some f \<and> smDiff x (Schema p) None c = (d, None) \<and>
       smData x (Schema p) None d = (rd, None) \<and> f rd = (m, Some e) \<longrightarrow>
      Provider_Configure x (Some p) c = Return (Some e, p) \<and>
      Meta_after (Provider_Configure x (Some p) c) = Provider_Meta (Some p))"
  by (simp add: Provider_Configure_def Meta_after_def)

theorem Configure_failure_keeps_meta_witness:
  "Provider_Configure ex_externals (Some (ex_provider\<lparr>ConfigureFunc := None\<rparr>)) 5
     = Return (None, ex_provider\<lparr>ConfigureFunc := None\<rparr>)
   \<and> Provider_Configure ex_externals (Some ex_provider) 0 = Return (Some ''diff failed'', ex_provider)
   \<and> Provider_Configure ex_externals (Some ex_provider) 1 = Return (Some ''data failed'', ex_provider)
   \<and> Provider_Configure ex_externals (Some ex_provider) 2
     = Return (Some ''configure failed'', ex_provider)
   \<and> Meta_after (Provider_Configure ex_externals (Some (ex_provider\<lparr>ConfigureFunc := None\<rparr>)) 5)
     = Return 7
   \<and> Meta_after (Provider_Configure ex_externals (Some ex_provider) 0) = Return 7
   \<and> Meta_after (Provider_Configure ex_externals (Some ex_provider) 1) = Return 7
   \<and> Meta_after (Provider_Configure ex_externals (Some ex_provider) 2) = Return 7"
proof -
  let ?f = ex_configure
  let ?p = "ex_provider\<lparr>ConfigureFunc := None\<rparr>"
  have nil: "ConfigureFunc ?p = None"
    by simp
  have diff: "ConfigureFunc ex_provider = Some ?f \<and>
      smDiff ex_externals (Schema ex_provider) None 0 = (None, Some ''diff failed'')"
    by (simp add: ex_provider_def ex_externals_def)
  have data: "ConfigureFunc ex_provider = Some ?f \<and>
      smDiff ex_externals (Schema ex_provider) None 1 = (Some 1, None) \<and>
      smData ex_externals (Schema ex_provider) None (Some 1) = (0, Some ''data failed'')"
    by (simp add: ex_provider_def ex_externals_def)
  have func: "ConfigureFunc ex_provider = Some ?f \<and>
      smDiff ex_externals (Schema ex_provider) None 2 = (Some 2, None) \<and>
      smData ex_externals (Schema ex_provider) None (Some 2) = (2, None) \<and>
      ?f 2 = (0, Some ''configure failed'')"
    by (simp add: ex_provider_def ex_externals_def ex_configure_def)
  have m: "Provider_Meta (Some ex_provider) = Return 7" "Provider_Meta (Some ?p) = Return 7"
    by (simp_all add: Provider_Meta_def ex_provider_def)
  note C = Configure_failure_keeps_meta
  have a: "Provider_Configure ex_externals (Some ?p) 5 = Return (None, ?p)
    \<and> Meta_after (Provider_Configure ex_externals (Some ?p) 5) = Provider_Meta (Some ?p)"
    using C [where p = ?p and x = ex_externals and c = 5] nil by blast
  have b: "Provider_Configure ex_externals (Some ex_provider) 0 = Return (Some ''diff failed'', ex_provider)
    \<and> Meta_after (Provider_Configure ex_externals (Some ex_provider) 0) = Provider_Meta (Some ex_provider)"
    using C [where p = ex_provider and x = ex_externals and c = 0 and f = ?f and d = None
      and e = "''diff failed''"] diff by blast
  have c: "Provider_Configure ex_externals (Some ex_provider) 1 = Return (Some ''data failed'', ex_provider)
    \<and> Meta_after (Provider_Configure ex_externals (Some ex_provider) 1) = Provider_Meta (Some ex_provider)"
    using C [where p = ex_provider and x = ex_externals and c = 1 and f = ?f and d = "Some 1"
      and e = "''data failed''" and rd = 0] data by blast
  have d: "Provider_Configure ex_externals (Some ex_provider) 2
      = Return (Some ''configure failed'', ex_provider)
    \<and> Meta_after (Provider_Configure ex_externals (Some ex_provider) 2) = Provider_Meta (Some ex_provider)"
    using C [where p = ex_provider and x = ex_externals and c = 2 and f = ?f and d = "Some 2"
      and e = "''configure failed''" and rd = 2 and m = 0] func by blast
  show ?thesis
    using a b c d unfolding m by blast
qed

text \<open>
  C1, as stated, at a \<^verbatim>\<open>ConfigureFunc\<close> that returns an error: \<^verbatim>\<open>Diff\<close> and \<^verbatim>\<open>Data\<close> succeed,
  \<^verbatim>\<open>ConfigureFunc\<close> returns the meta 0 with an error, and \<^verbatim>\<open>Configure\<close> returns that error
  (not nil) and stores nothing: \<^verbatim>\<open>Meta()\<close> still returns 7.
\<close>

theorem Configure_always_stores_counterexample:
  "ConfigureFunc ex_provider = Some ex_configure
   \<and> smDiff ex_externals (Schema ex_provider) None 2 = (Some 2, None)
   \<and> smData ex_externals (Schema ex_provider) None (Some 2) = (2, None)
   \<and> ex_configure 2 = (0, Some ''configure failed'')
   \<and> Provider_Configure ex_externals (Some ex_provider) 2
       = Return (Some ''configure failed'', ex_provider)
   \<and> Meta_after (Provider_Configure ex_externals (Some ex_provider) 2) = Return 7"
  by (simp add: Provider_Configure_def Meta_after_def Provider_Meta_def ex_provider_def
      ex_externals_def ex_configure_def)

text \<open>
  C1, amended. With a non-nil \<^verbatim>\<open>ConfigureFunc\<close>, when \<^verbatim>\<open>schemaMap(p.Schema).Diff(nil, c)\<close>,
  \<^verbatim>\<open>Data(nil, diff)\<close> on that diff and \<^verbatim>\<open>ConfigureFunc\<close> on that \<^verbatim>\<open>ResourceData\<close> each return
  no error, \<^verbatim>\<open>Configure\<close> stores the value \<^verbatim>\<open>ConfigureFunc\<close> returned as the meta and returns
  nil, and \<^verbatim>\<open>Meta()\<close> then returns exactly that value.
\<close>

theorem Configure_success_stores_meta:
  assumes "ConfigureFunc p = Some f"
    and "smDiff x (Schema p) None c = (d, None)"
    and "smData x (Schema p) None d = (rd, None)"
    and "f rd = (m, None)"
  shows "Provider_Configure x (Some p) c = Return (None, p\<lparr>meta := m\<rparr>)
    \<and> Meta_after (Provider_Configure x (Some p) c) = Return m"
  using assms by (simp add: Provider_Configure_def Meta_after_def Provider_Meta_def)

theorem Configure_success_stores_meta_witness:
  "Provider_Configure ex_externals (Some ex_provider) 5 = Return (None, ex_provider\<lparr>meta := 5\<rparr>)
   \<and> Meta_after (Provider_Configure ex_externals (Some ex_provider) 5) = Return 5"
proof -
  have f: "ConfigureFunc ex_provider = Some ex_configure"
    by (simp add: ex_provider_def)
  have d: "smDiff ex_externals (Schema ex_provider) None 5 = (Some 5, None)"
    by (simp add: ex_externals_def)
  have rd: "smData ex_externals (Schema ex_provider) None (Some 5) = (5, None)"
    by (simp add: ex_externals_def)
  have m: "ex_configure 5 = (5, None)"
    by (simp add: ex_configure_def)
  show ?thesis
    by (rule Configure_success_stores_meta [OF f d rd m])
qed

section \<open>The provider: dispatch on the resource type, and nil arguments\<close>

text \<open>
  C2, as stated, at \<^verbatim>\<open>Provider.Validate\<close>: it takes no type name and reads \<^verbatim>\<open>p.Schema\<close> only.
  With an empty \<^verbatim>\<open>ResourcesMap\<close>, where no type is supported, it returns what the schema
  map's \<^verbatim>\<open>Validate\<close> returns, here no error at all.
\<close>

theorem Validate_dispatch_counterexample:
  "map_of (ResourcesMap (ex_provider\<lparr>ResourcesMap := []\<rparr>)) ''db'' = None
   \<and> Provider_Validate ex_externals (Some (ex_provider\<lparr>ResourcesMap := []\<rparr>)) 5 = Return ([], [])"
  by (simp add: Provider_Validate_def ex_externals_def)

text \<open>
  C2, amended. \<^verbatim>\<open>ValidateResource\<close> (on its argument \<^verbatim>\<open>t\<close>) and \<^verbatim>\<open>Apply\<close>, \<^verbatim>\<open>Diff\<close>,
  \<^verbatim>\<open>Refresh\<close> (on \<^verbatim>\<open>s.Type\<close>) dispatch on the resource type name. For a name that is not a
  key of \<^verbatim>\<open>ResourcesMap\<close> they return an error that names the type and no result; for a key
  they return what the resource's method returns, \<^verbatim>\<open>Apply\<close> and \<^verbatim>\<open>Refresh\<close> handing on
  \<^verbatim>\<open>p.meta\<close>. \<^verbatim>\<open>Validate\<close> does not dispatch: it validates against the provider's schema.
\<close>

theorem dispatch_on_resource_type:
  "(map_of (ResourcesMap p) (ResourceState.Type s) = None \<longrightarrow>
      Provider_ValidateResource x (Some p) (ResourceState.Type s) c
        = Return ([], [''Provider doesn't support resource: '' @ ResourceState.Type s]) \<and>
      Provider_Apply x (Some p) (Some s) d
        = Return (None, Some (''unknown resource type: '' @ ResourceState.Type s)) \<and>
      Provider_Diff x (Some p) (Some s) c
        = Return (None, Some (''unknown resource type: '' @ ResourceState.Type s)) \<and>
      Provider_Refresh x (Some p) (Some s)
        = Return (None, Some (''unknown resource type: '' @ ResourceState.Type s)))
   \<and> (map_of (ResourcesMap p) (ResourceState.Type s) = Some r \<longrightarrow>
      Provider_ValidateResource x (Some p) (ResourceState.Type s) c = Return (rValidate x r c) \<and>
      Provider_Apply x (Some p) (Some s) d = Return (rApply x r s d (meta p)) \<and>
      Provider_Diff x (Some p) (Some s) c = Return (rDiff x r s c) \<and>
      Provider_Refresh x (Some p) (Some s) = Return (rRefresh x r s (meta p)))
   \<and> Provider_Validate x (Some p) c = Return (smValidate x (Schema p) c)"
  by (simp add: Provider_ValidateResource_def Provider_Apply_def Provider_Diff_def
      Provider_Refresh_def Provider_Validate_def)

theorem dispatch_on_resource_type_witness:
  "Provider_ValidateResource ex_externals (Some ex_provider) ''db'' 5
     = Return ([], [''Provider doesn't support resource: db''])
   \<and> Provider_Apply ex_externals (Some ex_provider) (Some (ex_state ''db'')) None
     = Return (None, Some ''unknown resource type: db'')
   \<and> Provider_Diff ex_externals (Some ex_provider) (Some (ex_state ''db'')) 5
     = Return (None, Some ''unknown resource type: db'')
   \<and> Provider_Refresh ex_externals (Some ex_provider) (Some (ex_state ''db''))
     = Return (None, Some ''unknown resource type: db'')
   \<and> Provider_ValidateResource ex_externals (Some ex_provider) ''app'' 5 = Return ([], [])
   \<and> Provider_Apply ex_externals (Some ex_provider) (Some (ex_state ''app'')) None
     = Return (Some (ex_state ''app''), None)
   \<and> Provider_Diff ex_externals (Some ex_provider) (Some (ex_state ''app'')) 5
     = Return (None, None)
   \<and> Provider_Refresh ex_externals (Some ex_provider) (Some (ex_state ''app''))
     = Return (Some (ex_state ''app''), None)"
proof -
  have unknown: "map_of (ResourcesMap ex_provider) (ResourceState.Type (ex_state ''db'')) = None"
    by (simp add: ex_provider_def ex_state_def)
  have known: "map_of (ResourcesMap ex_provider) (ResourceState.Type (ex_state ''app'')) = Some 2"
    by (simp add: ex_provider_def ex_state_def)
  have t: "ResourceState.Type (ex_state ''db'') = ''db''" "ResourceState.Type (ex_state ''app'') = ''app''"
    by (simp_all add: ex_state_def)
  have e: "rValidate ex_externals 2 5 = ([], [])"
    "rApply ex_externals 2 (ex_state ''app'') None (meta ex_provider) = (Some (ex_state ''app''), None)"
    "rDiff ex_externals 2 (ex_state ''app'') 5 = (None, None)"
    "rRefresh ex_externals 2 (ex_state ''app'') (meta ex_provider) = (Some (ex_state ''app''), None)"
    by (simp_all add: ex_externals_def)
  from dispatch_on_resource_type [where p = ex_provider and s = "ex_state ''db''"
      and x = ex_externals and c = 5 and d = None] unknown
  have a: "Provider_ValidateResource ex_externals (Some ex_provider) (ResourceState.Type (ex_state ''db'')) 5
        = Return ([], [''Provider doesn't support resource: '' @ ResourceState.Type (ex_state ''db'')]) \<and>
      Provider_Apply ex_externals (Some ex_provider) (Some (ex_state ''db'')) None
        = Return (None, Some (''unknown resource type: '' @ ResourceState.Type (ex_state ''db''))) \<and>
      Provider_Diff ex_externals (Some ex_provider) (Some (ex_state ''db'')) 5
        = Return (None, Some (''unknown resource type: '' @ ResourceState.Type (ex_state ''db''))) \<and>
      Provider_Refresh ex_externals (Some ex_provider) (Some (ex_state ''db''))
        = Return (None, Some (''unknown resource type: '' @ ResourceState.Type (ex_state ''db'')))"
    by blast
  from dispatch_on_resource_type [where p = ex_provider and s = "ex_state ''app''"
      and x = ex_externals and c = 5 and d = None and r = 2] known
  have b: "Provider_ValidateResource ex_externals (Some ex_provider) (ResourceState.Type (ex_state ''app'')) 5
        = Return (rValidate ex_externals 2 5) \<and>
      Provider_Apply ex_externals (Some ex_provider) (Some (ex_state ''app'')) None
        = Return (rApply ex_externals 2 (ex_state ''app'') None (meta ex_provider)) \<and>
      Provider_Diff ex_externals (Some ex_provider) (Some (ex_state ''app'')) 5
        = Return (rDiff ex_externals 2 (ex_state ''app'') 5) \<and>
      Provider_Refresh ex_externals (Some ex_provider) (Some (ex_state ''app''))
        = Return (rRefresh ex_externals 2 (ex_state ''app'') (meta ex_provider))"
    by blast
  show ?thesis
    using a b unfolding t e by simp
qed

text \<open>
  C5, as stated, at a nil state and at a nil receiver: \<^verbatim>\<open>Apply\<close> reads \<^verbatim>\<open>s.Type\<close> and
  \<^verbatim>\<open>Configure\<close> reads \<^verbatim>\<open>p.ConfigureFunc\<close> with no nil check, so each panics.
\<close>

theorem nil_argument_panics_counterexample:
  "Provider_Apply ex_externals (Some ex_provider) None None = Panic
   \<and> Provider_Configure ex_externals None 5 = Panic"
  by (simp add: Provider_Apply_def Provider_Configure_def)

text \<open>
  C5, amended. On a non-nil receiver, and for \<^verbatim>\<open>Apply\<close>, \<^verbatim>\<open>Diff\<close> and \<^verbatim>\<open>Refresh\<close> a non-nil
  state, every exported operation returns (the schema map's and the resource's methods it
  calls are taken to return). \<^verbatim>\<open>InternalValidate\<close> alone checks its receiver and returns
  the error "provider is nil"; the other operations panic on a nil receiver, and
  \<^verbatim>\<open>Apply\<close>, \<^verbatim>\<open>Diff\<close> and \<^verbatim>\<open>Refresh\<close> panic on a nil state.
\<close>

theorem operations_return_on_non_nil_arguments:
  "Provider_InternalValidate x None = Return (Some ''provider is nil'')
   \<and> returned (Provider_InternalValidate x (Some p))
   \<and> returned (Provider_Validate x (Some p) c)
   \<and> returned (Provider_ValidateResource x (Some p) t c)
   \<and> returned (Provider_Configure x (Some p) c)
   \<and> returned (Provider_Apply x (Some p) (Some s) d)
   \<and> returned (Provider_Diff x (Some p) (Some s) c)
   \<and> returned (Provider_Refresh x (Some p) (Some s))
   \<and> Provider_Validate x None c = Panic
   \<and> Provider_ValidateResource x None t c = Panic
   \<and> Provider_Configure x None c = Panic
   \<and> Provider_Apply x None so d = Panic \<and> Provider_Apply x po None d = Panic
   \<and> Provider_Diff x None so c = Panic \<and> Provider_Diff x po None c = Panic
   \<and> Provider_Refresh x None so = Panic \<and> Provider_Refresh x po None = Panic"
  by (simp add: Provider_InternalValidate_def Provider_Validate_def
      Provider_ValidateResource_def Provider_Configure_def Provider_Apply_def
      Provider_Diff_def Provider_Refresh_def split: option.split prod.split)

section \<open>The provider: Resources\<close>

lemma Name_of_ResourceType: "map ResourceType.Name (map (\<lambda>k. \<lparr>ResourceType.Name = k\<rparr>) ks) = ks"
  by (induction ks) simp_all

text \<open>
  C3. \<^verbatim>\<open>Resources()\<close> returns the keys of \<^verbatim>\<open>p.ResourcesMap\<close>, each once, as type names in
  strictly ascending string order, and returns the same list for every order in which the
  loop visits the map: \<open>p'\<close> holds the entries of \<open>p\<close> in any other order. (The keys of a
  Go map are distinct.)
\<close>

theorem Resources_sorted_keys:
  assumes "distinct (map fst (ResourcesMap p))"
    and "mset (ResourcesMap p') = mset (ResourcesMap p)"
  shows "\<exists>ts. Provider_Resources (Some p) = Return ts
    \<and> Provider_Resources (Some p') = Return ts
    \<and> set (map ResourceType.Name ts) = fst ` set (ResourcesMap p)
    \<and> distinct (map ResourceType.Name ts)
    \<and> sorted_wrt (<) (map ResourceType.Name ts)"
proof -
  let ?ks = "sort (map fst (ResourcesMap p))"
  let ?ts = "map (\<lambda>k. \<lparr>ResourceType.Name = k\<rparr>) ?ks"
  have "mset (map fst (ResourcesMap p')) = mset (map fst (ResourcesMap p))"
    using assms(2) by (metis mset_map)
  then have same: "sort (map fst (ResourcesMap p')) = ?ks"
    by (simp add: properties_for_sort)
  have names: "map ResourceType.Name ?ts = ?ks"
    by (rule Name_of_ResourceType)
  have p: "Provider_Resources (Some p) = Return ?ts"
    by (simp add: Provider_Resources_def)
  have p': "Provider_Resources (Some p') = Return ?ts"
    using same by (simp add: Provider_Resources_def)
  have "distinct ?ks" "sorted ?ks" "set ?ks = fst ` set (ResourcesMap p)"
    using assms(1) by simp_all
  then have "set (map ResourceType.Name ?ts) = fst ` set (ResourcesMap p) \<and> distinct (map ResourceType.Name ?ts)
      \<and> sorted_wrt (<) (map ResourceType.Name ?ts)"
    unfolding names by (simp add: strict_sorted_iff)
  with p p' show ?thesis
    by blast
qed

theorem Resources_sorted_keys_witness:
  "distinct (map fst (ResourcesMap ex_provider))
   \<and> mset (ResourcesMap (ex_provider\<lparr>ResourcesMap := [(''app'', 2), (''web'', 1)]\<rparr>))
       = mset (ResourcesMap ex_provider)
   \<and> Provider_Resources (Some ex_provider) = Return [\<lparr>ResourceType.Name = ''app''\<rparr>, \<lparr>ResourceType.Name = ''web''\<rparr>]
   \<and> Provider_Resources (Some (ex_provider\<lparr>ResourcesMap := [(''app'', 2), (''web'', 1)]\<rparr>))
       = Return [\<lparr>ResourceType.Name = ''app''\<rparr>, \<lparr>ResourceType.Name = ''web''\<rparr>]"
proof -
  let ?p' = "ex_provider\<lparr>ResourcesMap := [(''app'', 2), (''web'', 1)]\<rparr>"
  have d: "distinct (map fst (ResourcesMap ex_provider))"
    by (simp add: ex_provider_def)
  have m: "mset (ResourcesMap ?p') = mset (ResourcesMap ex_provider)"
    by (simp add: ex_provider_def)
  have r: "Provider_Resources (Some ex_provider) = Return [\<lparr>ResourceType.Name = ''app''\<rparr>, \<lparr>ResourceType.Name = ''web''\<rparr>]"
    by (simp add: Provider_Resources_def ex_provider_def)
  from Resources_sorted_keys [OF d m] obtain ts where
    "Provider_Resources (Some ex_provider) = Return ts" "Provider_Resources (Some ?p') = Return ts"
    by blast
  with r have "Provider_Resources (Some ?p') = Return [\<lparr>ResourceType.Name = ''app''\<rparr>, \<lparr>ResourceType.Name = ''web''\<rparr>]"
    by simp
  with d m r show ?thesis
    by blast
qed

section \<open>The provider: who writes the meta\<close>

text \<open>
  C4, as stated, at two calls of \<^verbatim>\<open>Configure\<close> with a resource operation between them: each
  call writes the meta, so the value \<^verbatim>\<open>Meta()\<close> returns changes a second time, after a
  resource operation has run.
\<close>

theorem meta_written_once_counterexample:
  "run ex_externals ex_provider [OpConfigure 5] = Return (ex_provider\<lparr>meta := 5\<rparr>)
   \<and> run ex_externals ex_provider [OpConfigure 5, OpApply (Some (ex_state ''app'')) None, OpConfigure 6]
       = Return (ex_provider\<lparr>meta := 6\<rparr>)
   \<and> Provider_Meta (Some (ex_provider\<lparr>meta := 5\<rparr>)) = Return 5
   \<and> Provider_Meta (Some (ex_provider\<lparr>meta := 6\<rparr>)) = Return 6"
  by (simp add: Provider_Configure_def Provider_Apply_def Provider_Meta_def ex_provider_def
      ex_externals_def ex_configure_def ex_state_def)

lemma unchanged_Return: "unchanged p res = Return p' \<Longrightarrow> p' = p"
  by (cases res) simp_all

lemma perform_reads: "\<not> writesMeta opn \<Longrightarrow> perform x p opn = Return p' \<Longrightarrow> p' = p"
  by (cases opn) (auto dest: unchanged_Return)

lemma run_reads:
  "list_all (\<lambda>opn. \<not> writesMeta opn) opns \<Longrightarrow> run x p opns = Return p' \<Longrightarrow> p' = p"
proof (induction opns arbitrary: p)
  case Nil
  then show ?case by simp
next
  case (Cons opn opns)
  from Cons.prems(2) obtain q where q: "perform x p opn = Return q" "run x q opns = Return p'"
    by (auto split: outcome.splits)
  from Cons.prems(1) q(1) have "q = p"
    using perform_reads [of opn x p q] by simp
  with Cons.IH [of q] Cons.prems(1) q(2) show ?case
    by simp
qed

text \<open>
  C4, amended. The meta is written by \<^verbatim>\<open>Configure\<close> and by \<^verbatim>\<open>SetMeta\<close> only: no sequence of
  the other operations (\<^verbatim>\<open>InternalValidate\<close>, \<^verbatim>\<open>Validate\<close>, \<^verbatim>\<open>ValidateResource\<close>, \<^verbatim>\<open>Apply\<close>,
  \<^verbatim>\<open>Diff\<close>, \<^verbatim>\<open>Refresh\<close>, \<^verbatim>\<open>Resources\<close>, \<^verbatim>\<open>Meta\<close>) changes the provider, so neither the value
  \<^verbatim>\<open>Meta()\<close> returns nor what \<^verbatim>\<open>Apply\<close> and \<^verbatim>\<open>Refresh\<close> do with it. Nothing in the code
  limits \<^verbatim>\<open>Configure\<close> to one call or places it before the resource operations.
\<close>

theorem meta_read_only_outside_Configure_and_SetMeta:
  assumes "list_all (\<lambda>opn. \<not> writesMeta opn) opns"
    and "run x p opns = Return p'"
  shows "Provider_Meta (Some p') = Provider_Meta (Some p)
    \<and> Provider_Apply x (Some p') s d = Provider_Apply x (Some p) s d
    \<and> Provider_Refresh x (Some p') s = Provider_Refresh x (Some p) s
    \<and> p' = p"
  using run_reads [OF assms] by simp

theorem meta_read_only_outside_Configure_and_SetMeta_witness:
  "list_all (\<lambda>opn. \<not> writesMeta opn)
     [OpInternalValidate, OpValidate 5, OpValidateResource ''db'' 5,
      OpApply (Some (ex_state ''app'')) None, OpDiff (Some (ex_state ''web'')) 5,
      OpRefresh (Some (ex_state ''db'')), OpResources, OpMeta :: (nat, nat, nat) operation]
   \<and> run ex_externals ex_provider
     [OpInternalValidate, OpValidate 5, OpValidateResource ''db'' 5,
      OpApply (Some (ex_state ''app'')) None, OpDiff (Some (ex_state ''web'')) 5,
      OpRefresh (Some (ex_state ''db'')), OpResources, OpMeta] = Return ex_provider
   \<and> Provider_Meta (Some ex_provider) = Return 7"
proof -
  let ?opns = "[OpInternalValidate, OpValidate 5, OpValidateResource ''db'' 5,
      OpApply (Some (ex_state ''app'')) None, OpDiff (Some (ex_state ''web'')) 5,
      OpRefresh (Some (ex_state ''db'')), OpResources, OpMeta] :: (nat, nat, nat) operation list"
  have r: "list_all (\<lambda>opn. \<not> writesMeta opn) ?opns"
    by simp
  have "returned (run ex_externals ex_provider ?opns)"
    by (simp add: Provider_InternalValidate_def Provider_Validate_def
        Provider_ValidateResource_def Provider_Apply_def Provider_Diff_def
        Provider_Refresh_def Provider_Resources_def Provider_Meta_def
        ex_provider_def ex_externals_def ex_state_def)
  then obtain p' where p': "run ex_externals ex_provider ?opns = Return p'"
    by (cases "run ex_externals ex_provider ?opns") simp_all
  from meta_read_only_outside_Configure_and_SetMeta [OF r p'] have "p' = ex_provider"
    by simp
  with r p' show ?thesis
    by (simp add: Provider_Meta_def ex_provider_def)
qed

section \<open>The provider: Apply with the empty diff\<close>

text \<open>
  C7, as stated, at a state whose \<^verbatim>\<open>Type\<close> is not a key of \<^verbatim>\<open>ResourcesMap\<close>:
  \<^verbatim>\<open>Provider.Apply\<close> with the empty diff returns no state and an error, not the state.
\<close>

theorem Apply_empty_diff_counterexample:
  "map_of (ResourcesMap ex_apply_provider) (ResourceState.Type (ex_state ''db'')) = None
   \<and> Provider_Apply ex_apply_externals (Some ex_apply_provider) (Some (ex_state ''db'')) (Some emptyDiff)
       = Return (None, Some ''unknown resource type: db'')"
  by (simp add: Provider_Apply_def ex_apply_provider_def ex_state_def)

text \<open>
  C7, amended. For every state \<open>s\<close> whose \<^verbatim>\<open>Type\<close> is a key of \<^verbatim>\<open>ResourcesMap\<close>,
  \<^verbatim>\<open>Apply(s, emptyDiff)\<close> returns \<open>s\<close> itself (every field equal) with a nil error, and the
  resource's \<^verbatim>\<open>Apply\<close> invokes none of \<^verbatim>\<open>Create\<close>, \<^verbatim>\<open>Read\<close>, \<^verbatim>\<open>Update\<close>, \<^verbatim>\<open>Delete\<close>.
\<close>

theorem Apply_empty_diff_no_op:
  assumes "map_of (ResourcesMap p) (ResourceState.Type s) = Some r"
    and "rApply x = Resource_Apply"
  shows "Provider_Apply x (Some p) (Some s) (Some emptyDiff) = Return (Some s, None)
    \<and> snd (Resource_Apply_run r s (Some emptyDiff) (meta p)) = []"
  using assms
  by (simp add: Provider_Apply_def Resource_Apply_def Resource_Apply_run_def
      isEmptyDiff_def emptyDiff_def)

theorem Apply_empty_diff_no_op_witness:
  "Provider_Apply ex_apply_externals (Some ex_apply_provider) (Some (ex_state ''app'')) (Some emptyDiff)
     = Return (Some (ex_state ''app''), None)
   \<and> snd (Resource_Apply_run ex_resource (ex_state ''app'') (Some emptyDiff) (meta ex_apply_provider)) = []"
proof -
  have r: "map_of (ResourcesMap ex_apply_provider) (ResourceState.Type (ex_state ''app'')) = Some ex_resource"
    by (simp add: ex_apply_provider_def ex_state_def)
  have a: "rApply ex_apply_externals = Resource_Apply"
    by (simp add: ex_apply_externals_def)
  show ?thesis
    by (rule Apply_empty_diff_no_op [OF r a])
qed

section \<open>package aws: expandListeners and canonicaliseIPPerms\<close>

text \<open>
  One round of the loop on a listener of four strings: the error that decides is the one
  of \<^verbatim>\<open>lb_port\<close>; what \<^verbatim>\<open>ParseInt\<close> returned for \<^verbatim>\<open>instance_port\<close> is stored as it is.
\<close>

lemma expandListeners_loop_entry:
  "expandListeners_loop parseInt (listenerConfig ip ipr lp lpr # rest) acc =
     (case snd (parseInt lp) of
        Some e \<Rightarrow> Return (None, Some e)
      | None \<Rightarrow> expandListeners_loop parseInt rest
          (acc @ [\<lparr>InstancePort = fst (parseInt ip), InstanceProtocol = ipr,
                   LoadBalancerPort = fst (parseInt lp), Listener.Protocol = lpr\<rparr>]))"
  by (simp add: listenerConfig_def index_def split_def Let_def split: option.split)

text \<open>
  C10, where the code departs from it: an \<^verbatim>\<open>instance_port\<close> that fails to parse, with an
  \<^verbatim>\<open>lb_port\<close> that parses. \<^verbatim>\<open>expandListeners\<close> returns a listener list and a nil error; the
  listener carries the number \<^verbatim>\<open>ParseInt\<close> returned beside its error.
\<close>

theorem expandListeners_loses_instance_port_error:
  assumes "parseInt ip = (n, Some e)"
    and "parseInt lp = (k, None)"
  shows "expandListeners parseInt [listenerConfig ip ipr lp lpr] =
    Return (Some [\<lparr>InstancePort = n, InstanceProtocol = ipr,
                     LoadBalancerPort = k, Listener.Protocol = lpr\<rparr>], None)"
  using assms
  by (simp add: expandListeners_def expandListeners_loop_entry del: expandListeners_loop.simps(2))

lemma ex_parseInt_abc: "ex_parseInt ''abc'' = (0, Some ''strconv.ParseInt: parsing abc: invalid syntax'')"
  by (simp add: ex_parseInt_def)

lemma ex_parseInt_80: "ex_parseInt ''80'' = (80, None)"
  by (simp add: ex_parseInt_def)

theorem expandListeners_loses_instance_port_error_witness:
  "ex_parseInt ''abc'' = (0, Some ''strconv.ParseInt: parsing abc: invalid syntax'')
   \<and> ex_parseInt ''80'' = (80, None)
   \<and> expandListeners ex_parseInt [listenerConfig ''abc'' ''http'' ''80'' ''tcp''] =
      Return (Some [\<lparr>InstancePort = 0, InstanceProtocol = ''http'',
                      LoadBalancerPort = 80, Listener.Protocol = ''tcp''\<rparr>], None)"
  using expandListeners_loses_instance_port_error [OF ex_parseInt_abc ex_parseInt_80]
    ex_parseInt_abc ex_parseInt_80 by blast

text \<open>
  What holds of the claim on \<^verbatim>\<open>expandListeners\<close>: when the \<^verbatim>\<open>lb_port\<close> of every configured
  listener parses,
  \<^verbatim>\<open>expandListeners\<close> returns one listener for each entry, in order, with the given protocols
  and the numbers \<^verbatim>\<open>ParseInt\<close> returned.
\<close>

lemma expandListeners_loop_entries:
  assumes "\<forall>(ip, ipr, lp, lpr) \<in> set entries. snd (parseInt lp) = None"
  shows "expandListeners_loop parseInt
     (map (\<lambda>(ip, ipr, lp, lpr). listenerConfig ip ipr lp lpr) entries) acc =
     Return (Some (acc @ map (\<lambda>(ip, ipr, lp, lpr).
                    \<lparr>InstancePort = fst (parseInt ip), InstanceProtocol = ipr,
                     LoadBalancerPort = fst (parseInt lp), Listener.Protocol = lpr\<rparr>) entries),
             None)"
  using assms
proof (induction entries arbitrary: acc)
  case Nil
  then show ?case by simp
next
  case (Cons e entries)
  obtain ip ipr lp lpr where e: "e = (ip, ipr, lp, lpr)"
    by (cases e)
  from Cons.prems have lp: "snd (parseInt lp) = None"
    and rest: "\<forall>(ip, ipr, lp, lpr) \<in> set entries. snd (parseInt lp) = None"
    by (simp_all add: e)
  have "expandListeners_loop parseInt
      (map (\<lambda>(ip, ipr, lp, lpr). listenerConfig ip ipr lp lpr) (e # entries)) acc
    = expandListeners_loop parseInt
      (map (\<lambda>(ip, ipr, lp, lpr). listenerConfig ip ipr lp lpr) entries)
      (acc @ [\<lparr>InstancePort = fst (parseInt ip), InstanceProtocol = ipr,
                LoadBalancerPort = fst (parseInt lp), Listener.Protocol = lpr\<rparr>])"
    unfolding e list.map prod.case expandListeners_loop_entry lp option.case ..
  also note Cons.IH [OF rest]
  finally show ?case
    by (simp add: e)
qed

lemma expandListeners_when_lb_ports_parse:
  assumes "\<forall>(ip, ipr, lp, lpr) \<in> set entries. snd (parseInt lp) = None"
  shows "expandListeners parseInt (map (\<lambda>(ip, ipr, lp, lpr). listenerConfig ip ipr lp lpr) entries) =
     Return (Some (map (\<lambda>(ip, ipr, lp, lpr).
                    \<lparr>InstancePort = fst (parseInt ip), InstanceProtocol = ipr,
                     LoadBalancerPort = fst (parseInt lp), Listener.Protocol = lpr\<rparr>) entries),
             None)"
  unfolding expandListeners_def expandListeners_loop_entries [OF assms] by simp

text \<open>
  C9, where the code departs from it: \<^verbatim>\<open>sortableRules.Less\<close> is a disjunction, not a
  lexicographic order, so two rules can each be less than the other. For the input of a
  udp rule on port 22 and a tcp rule on port 80 the output lists the rules in one order
  when the map is visited in the order of insertion and in the other order when it is
  visited in reverse; with one order of visit, a permuted input gives another output.
\<close>

theorem canonicaliseIPPerms_depends_on_map_order:
  "sortableRules_Less ex_ssh ex_web \<and> sortableRules_Less ex_web ex_ssh
   \<and> canonicaliseIPPerms id [ex_ssh, ex_web] = [ex_web, ex_ssh]
   \<and> canonicaliseIPPerms rev [ex_ssh, ex_web] = [ex_ssh, ex_web]
   \<and> canonicaliseIPPerms id [ex_web, ex_ssh] = [ex_ssh, ex_web]"
  by (simp add: canonicaliseIPPerms_def canonicalise_step_def keyOf_def insertionSort_def
      sortableRules_Less_def sortableHosts_Less_def sortableGroups_Less_def ex_ssh_def ex_web_def)

text \<open>
  What holds of the claim on \<^verbatim>\<open>canonicaliseIPPerms\<close>. The insertion sort permutes its input,
  and sorts it when
  \<^verbatim>\<open>Less\<close> compares a key in a linear order, as the orders of the hosts and of the groups do.
\<close>

lemma mset_insertBack: "mset (insertBack lt x prefix) = add_mset x (mset prefix)"
  by (induction prefix) simp_all

lemma mset_insertionSort: "mset (insertionSort lt data) = mset data"
proof -
  have "mset (foldl (\<lambda>prefix x. insertBack lt x prefix) acc data) = mset acc + mset data" for acc
    by (induction data arbitrary: acc) (simp_all add: mset_insertBack)
  then show ?thesis
    by (simp add: insertionSort_def)
qed

lemma set_insertBack: "set (insertBack lt x prefix) = insert x (set prefix)"
  by (induction prefix) auto

lemma descending_insertBack:
  fixes f :: "'a \<Rightarrow> 'b :: linorder"
  assumes "sorted_wrt (\<lambda>a b. f b \<le> f a) prefix"
  shows "sorted_wrt (\<lambda>a b. f b \<le> f a) (insertBack (\<lambda>a b. f a < f b) x prefix)"
  using assms by (induction prefix) (auto simp: set_insertBack)

lemma sorted_insertionSort:
  fixes f :: "'a \<Rightarrow> 'b :: linorder"
  shows "sorted (map f (insertionSort (\<lambda>a b. f a < f b) data))"
proof -
  have "sorted_wrt (\<lambda>a b. f b \<le> f a) acc \<Longrightarrow>
      sorted_wrt (\<lambda>a b. f b \<le> f a) (foldl (\<lambda>prefix x. insertBack (\<lambda>a b. f a < f b) x prefix) acc data)"
    for acc
    by (induction data arbitrary: acc) (simp_all add: descending_insertBack)
  from this [of "[]"] have "sorted_wrt (\<lambda>a b. f b \<le> f a) (rev (insertionSort (\<lambda>a b. f a < f b) data))"
    by (simp add: insertionSort_def)
  then have "sorted_wrt (\<lambda>a b. f a \<le> f b) (insertionSort (\<lambda>a b. f a < f b) data)"
    by (simp add: sorted_wrt_rev)
  then show ?thesis
    by (simp add: sorted_wrt_map)
qed

lemma insertionSort_hosts: "insertionSort sortableHosts_Less ips = sort ips"
proof -
  have l: "sortableHosts_Less = (\<lambda>a b. id a < id b)"
    by (simp add: sortableHosts_Less_def fun_eq_iff)
  have "sorted (map id (insertionSort sortableHosts_Less ips))"
    unfolding l by (rule sorted_insertionSort)
  then have "sorted (insertionSort sortableHosts_Less ips)"
    by simp
  with mset_insertionSort [of sortableHosts_Less ips] show ?thesis
    by (rule properties_for_sort [symmetric])
qed

lemma insertionSort_groups:
  "sorted (map Id (insertionSort sortableGroups_Less gs))
   \<and> mset (insertionSort sortableGroups_Less gs) = mset gs"
proof -
  have l: "sortableGroups_Less = (\<lambda>a b. Id a < Id b)"
    by (simp add: sortableGroups_Less_def fun_eq_iff)
  show ?thesis
    unfolding l by (simp add: sorted_insertionSort mset_insertionSort)
qed

text \<open>
  One round of the first loop, on the map it builds.
\<close>

lemma canonicalise_step_map_of:
  "map_of (canonicalise_step rules p) =
     (map_of rules)(keyOf p \<mapsto>
        (case map_of rules (keyOf p) of
           Some rule \<Rightarrow> rule\<lparr>SourceGroups := SourceGroups rule @ SourceGroups p,
                               SourceIPs := SourceIPs rule @ SourceIPs p\<rparr>
         | None \<Rightarrow> \<lparr>IPPerm.Protocol = IPPerm.Protocol p, IPPerm.FromPort = IPPerm.FromPort p,
                    IPPerm.ToPort = IPPerm.ToPort p,
                    SourceIPs = SourceIPs p, SourceGroups = SourceGroups p\<rparr>))"
  by (cases "map_of rules (keyOf p)")
    (simp_all add: canonicalise_step_def Let_def update_conv')

lemma canonicalise_step_keys:
  "fst ` set (canonicalise_step rules p) = insert (keyOf p) (fst ` set rules)"
  by (simp add: canonicalise_step_def Let_def dom_update)

lemma canonicalise_step_distinct:
  "distinct (map fst rules) \<Longrightarrow> distinct (map fst (canonicalise_step rules p))"
  by (simp add: canonicalise_step_def Let_def distinct_update)

text \<open>The rule the first loop holds for a key, before the sorting.\<close>

lemma grouped_invariant:
  "distinct (map fst (foldl canonicalise_step [] input))
   \<and> fst ` set (foldl canonicalise_step [] input) = keyOf ` set input
   \<and> (\<forall>key \<in> keyOf ` set input.
        map_of (foldl canonicalise_step [] input) key =
          Some \<lparr>IPPerm.Protocol = ipPermKey.Protocol key,
                IPPerm.FromPort = ipPermKey.FromPort key,
                IPPerm.ToPort = ipPermKey.ToPort key,
                SourceIPs = concat (map SourceIPs (filter (\<lambda>p. keyOf p = key) input)),
                SourceGroups = concat (map SourceGroups (filter (\<lambda>p. keyOf p = key) input))\<rparr>)"
proof (induction input rule: rev_induct)
  case Nil
  then show ?case by simp
next
  case (snoc p input)
  let ?g = "foldl canonicalise_step [] input"
  let ?rule = "\<lambda>input key. \<lparr>IPPerm.Protocol = ipPermKey.Protocol key,
                IPPerm.FromPort = ipPermKey.FromPort key,
                IPPerm.ToPort = ipPermKey.ToPort key,
                SourceIPs = concat (map SourceIPs (filter (\<lambda>p. keyOf p = key) input)),
                SourceGroups = concat (map SourceGroups (filter (\<lambda>p. keyOf p = key) input))\<rparr>"
  from snoc have d: "distinct (map fst ?g)" and k: "fst ` set ?g = keyOf ` set input"
    and m: "\<And>key. key \<in> keyOf ` set input \<Longrightarrow> map_of ?g key = Some (?rule input key)"
    by blast+
  have step: "foldl canonicalise_step [] (input @ [p]) = canonicalise_step ?g p"
    by simp
  have "map_of (canonicalise_step ?g p) key = Some (?rule (input @ [p]) key)"
    if key: "key \<in> keyOf ` set (input @ [p])" for key
  proof (cases "key = keyOf p")
    case True
    show ?thesis
    proof (cases "keyOf p \<in> keyOf ` set input")
      case True
      with m [of "keyOf p"] \<open>key = keyOf p\<close> show ?thesis
        by (simp add: canonicalise_step_map_of)
    next
      case False
      then have none: "map_of ?g (keyOf p) = None"
        using k by (simp add: map_of_eq_None_iff)
      from False have "\<forall>q \<in> set input. keyOf q \<noteq> keyOf p"
        by (metis imageI)
      then have "filter (\<lambda>q. keyOf q = keyOf p) input = []"
        by (simp add: filter_empty_conv)
      with none \<open>key = keyOf p\<close> show ?thesis
        by (simp add: canonicalise_step_map_of keyOf_def)
    qed
  next
    case False
    with key have "key \<in> keyOf ` set input"
      by auto
    with m [of key] False show ?thesis
      by (simp add: canonicalise_step_map_of)
  qed
  with d k show ?case
    unfolding step by (simp add: canonicalise_step_keys canonicalise_step_distinct)
qed

text \<open>
  Whatever the order in which the map is visited, the output holds one rule for each key
  of the input, and that rule is the canonical one: as a multiset the output does not
  depend on the order of the visit; only the order of its rules does.
\<close>

lemma canonicaliseIPPerms_rules:
  assumes "permutes visit"
  shows "mset (canonicaliseIPPerms visit input)
    = mset (map (canonicalRule input) (remdups (map keyOf input)))"
proof -
  let ?g = "foldl canonicalise_step [] input"
  let ?N = "\<lambda>(key, r). r\<lparr>SourceIPs := insertionSort sortableHosts_Less (SourceIPs r),
                           SourceGroups := insertionSort sortableGroups_Less (SourceGroups r)\<rparr>"
  note inv = grouped_invariant [of input]
  have entry: "?N e = canonicalRule input (fst e)" if e: "e \<in> set ?g" for e
  proof -
    obtain key r where kr: "e = (key, r)"
      by (cases e)
    with e inv have "map_of ?g key = Some r"
      by simp
    moreover from e kr inv have "key \<in> keyOf ` set input"
      by (metis fst_conv imageI)
    ultimately have "r = \<lparr>IPPerm.Protocol = ipPermKey.Protocol key,
                IPPerm.FromPort = ipPermKey.FromPort key,
                IPPerm.ToPort = ipPermKey.ToPort key,
                SourceIPs = concat (map SourceIPs (filter (\<lambda>p. keyOf p = key) input)),
                SourceGroups = concat (map SourceGroups (filter (\<lambda>p. keyOf p = key) input))\<rparr>"
      using inv by simp
    then show ?thesis
      by (simp add: kr canonicalRule_def insertionSort_hosts)
  qed
  have keys: "mset (map fst ?g) = mset (remdups (map keyOf input))"
  proof -
    have "set (map fst ?g) = set (remdups (map keyOf input))"
      using inv by simp
    moreover have "distinct (map fst ?g)" "distinct (remdups (map keyOf input))"
      using inv by simp_all
    ultimately show ?thesis
      by (simp only: set_eq_iff_mset_eq_distinct)
  qed
  have "mset (canonicaliseIPPerms visit input) = mset (map ?N (visit ?g))"
    by (simp add: canonicaliseIPPerms_def Let_def mset_insertionSort)
  also have "\<dots> = image_mset ?N (mset (visit ?g))"
    by simp
  also have "\<dots> = image_mset ?N (mset ?g)"
    using assms by (simp add: permutes_def)
  also have "\<dots> = mset (map ?N ?g)"
    by simp
  also have "map ?N ?g = map (canonicalRule input) (map fst ?g)"
    using entry by simp
  also have "mset (map (canonicalRule input) (map fst ?g))
      = image_mset (canonicalRule input) (mset (map fst ?g))"
    by (simp only: mset_map)
  also have "\<dots> = image_mset (canonicalRule input) (mset (remdups (map keyOf input)))"
    using keys by (rule arg_cong)
  also have "\<dots> = mset (map (canonicalRule input) (remdups (map keyOf input)))"
    by (simp only: mset_map)
  finally show ?thesis .
qed

text \<open>
  The canonical rule of a key holds the source IPs and source groups of the input entries
  with that key, the IPs sorted and the groups sorted by \<^verbatim>\<open>Id\<close>.
\<close>

lemma canonicalRule_sorted:
  "sorted (SourceIPs (canonicalRule input key))
   \<and> sorted (map Id (SourceGroups (canonicalRule input key)))
   \<and> mset (SourceIPs (canonicalRule input key))
       = mset (concat (map SourceIPs (filter (\<lambda>p. keyOf p = key) input)))
   \<and> mset (SourceGroups (canonicalRule input key))
       = mset (concat (map SourceGroups (filter (\<lambda>p. keyOf p = key) input)))"
  by (simp add: canonicalRule_def insertionSort_groups del: mset_concat)

section \<open>package config: Validate reports every violation\<close>

text \<open>
  A loop that appends to \<^verbatim>\<open>errs\<close> what its body gives for each element, and two such loops
  nested.
\<close>

lemma foldl_append_errs: "foldl (\<lambda>errs v. errs @ f v) errs vs = errs @ concat (map f vs)"
  by (induction vs arbitrary: errs) simp_all

lemma foldl_append_nested:
  "foldl (\<lambda>errs (source, vs). foldl (\<lambda>errs v. errs @ g source v) errs vs) errs entries
     = errs @ concat (map (\<lambda>(source, vs). concat (map (g source) vs)) entries)"
  by (induction entries arbitrary: errs) (simp_all add: foldl_append_errs split_def)

lemma pairs_Nil: "pairs [] = {}"
  by (simp add: pairs_def)

lemma pairs_Cons: "pairs ((k, vs) # entries) = Pair k ` set vs \<union> pairs entries"
  by (auto simp: pairs_def)

lemma set_concat_nested:
  "set (concat (map (\<lambda>(source, vs). concat (map (g source) vs)) entries))
     = (\<Union>(source, v) \<in> pairs entries. set (g source v))"
  by (induction entries) (auto simp: pairs_Nil pairs_Cons)

text \<open>
  \<^verbatim>\<open>allVariables\<close> holds exactly the references of the configuration.
\<close>

lemma pairs_appendVariable: "pairs (appendVariable source result v) = insert (source, v) (pairs result)"
proof (induction result)
  case Nil
  then show ?case by (simp add: appendVariable_def pairs_def)
next
  case (Cons a result)
  obtain k vs where a: "a = (k, vs)" by (cases a)
  show ?case
  proof (cases "k = source")
    case True
    then show ?thesis
      by (auto simp: appendVariable_def a pairs_Cons)
  next
    case False
    with Cons.IH show ?thesis
      by (auto simp: appendVariable_def a pairs_Cons)
  qed
qed

lemma pairs_appendVariables:
  "pairs (appendVariables source rc result)
     = pairs result \<union> Pair source ` snd ` set (RawConfig.Variables rc)"
proof -
  have "pairs (foldl (appendVariable source) result vs) = pairs result \<union> Pair source ` set vs"
    for vs
    by (induction vs arbitrary: result) (auto simp: pairs_appendVariable)
  then show ?thesis
    by (simp add: appendVariables_def)
qed

lemma pairs_foldl_appendVariables:
  "pairs (foldl (\<lambda>result e. appendVariables (src e) (raw e) result) result es)
     = pairs result \<union> {(src e, v) | e v. e \<in> set es \<and> v \<in> snd ` set (RawConfig.Variables (raw e))}"
  by (induction es arbitrary: result) (auto simp: pairs_appendVariables)

lemma pairs_allVariables: "pairs (Config_allVariables c) = references c"
  unfolding Config_allVariables_def references_def Let_def
  by (simp add: pairs_foldl_appendVariables pairs_Nil Un_assoc)

lemma varMap_keys:
  "fst ` set (foldl (\<lambda>varMap v. AList.update (Variable.Name v) v varMap) m vs)
     = fst ` set m \<union> Variable.Name ` set vs"
  by (induction vs arbitrary: m) (auto simp: AList.dom_update)

lemma varMap_None:
  "map_of (foldl (\<lambda>varMap v. AList.update (Variable.Name v) v varMap) [] vs) name = None
     \<longleftrightarrow> name \<notin> Variable.Name ` set vs"
  by (simp add: map_of_eq_None_iff varMap_keys)

text \<open>
  The loop over \<^verbatim>\<open>c.Resources\<close>: the map ends with the resource declared last under each id,
  each id once, and one error for each id that occurs more than once.
\<close>

lemma registerResource_step:
  "registerResource (res, dup, errs) r =
     (AList.update (Resource_Id r) r res,
      if map_of res (Resource_Id r) \<noteq> None \<and> Resource_Id r \<notin> set dup
      then dup @ [Resource_Id r] else dup,
      if map_of res (Resource_Id r) \<noteq> None \<and> Resource_Id r \<notin> set dup
      then errs @ [Resource_Id r @ '': resource repeated multiple times''] else errs)"
  by (simp add: registerResource_def)

lemma registerResource_errs:
  "foldl registerResource (res, dup, errs0 @ errs) rs
     = (case foldl registerResource (res, dup, errs) rs of (res', dup', errs') \<Rightarrow> (res', dup', errs0 @ errs'))"
proof (induction rs rule: rev_induct)
  case Nil
  then show ?case by simp
next
  case (snoc r rs)
  obtain res' dup' errs' where s: "foldl registerResource (res, dup, errs) rs = (res', dup', errs')"
    by (cases "foldl registerResource (res, dup, errs) rs") auto
  from snoc s have t: "foldl registerResource (res, dup, errs0 @ errs) rs = (res', dup', errs0 @ errs')"
    by simp
  show ?case
    by (simp add: s t registerResource_step)
qed

lemma registered_loop:
  "foldl registerResource ([], [], errs0) rs = (res, dup, errs)
     \<Longrightarrow> res = registered rs \<and> errs = errs0 @ repeated rs"
  using registerResource_errs [of "[]" "[]" errs0 "[]" rs]
  by (auto simp: registered_def repeated_def split: prod.splits)

lemma registered_invariant:
  "foldl registerResource ([], [], []) rs = (res, dup, errs) \<Longrightarrow>
     map_of res = map_of (rev (map (\<lambda>r. (Resource_Id r, r)) rs))
     \<and> distinct (map fst res)
     \<and> set dup = {id. 1 < count_list (map Resource_Id rs) id}
     \<and> set errs = (\<lambda>id. id @ '': resource repeated multiple times'') ` set dup"
proof (induction rs arbitrary: res dup errs rule: rev_induct)
  case Nil
  then show ?case by simp
next
  case (snoc r rs)
  obtain res' dup' errs' where s: "foldl registerResource ([], [], []) rs = (res', dup', errs')"
    by (cases "foldl registerResource ([], [], []) rs") auto
  note IH = snoc.IH [OF s]
  let ?id = "Resource_Id r"
  have present: "map_of res' ?id \<noteq> None \<longleftrightarrow> 0 < count_list (map Resource_Id rs) ?id"
  proof -
    have "map_of res' ?id \<noteq> None \<longleftrightarrow> ?id \<in> fst ` set (rev (map (\<lambda>r. (Resource_Id r, r)) rs))"
      using IH by (simp add: map_of_eq_None_iff del: set_rev set_map)
    also have "\<dots> \<longleftrightarrow> ?id \<in> set (map Resource_Id rs)"
      by (auto simp: image_iff)
    also have "\<dots> \<longleftrightarrow> 0 < count_list (map Resource_Id rs) ?id"
      using count_list_0_iff [of "map Resource_Id rs" ?id] by auto
    finally show ?thesis .
  qed
  from snoc.prems s have step: "registerResource (res', dup', errs') r = (res, dup, errs)"
    by simp
  then have res: "res = AList.update ?id r res'"
    by (simp add: registerResource_step)
  have m: "map_of res = map_of (rev (map (\<lambda>r. (Resource_Id r, r)) (rs @ [r])))"
    using IH by (simp add: res update_conv')
  have d: "distinct (map fst res)"
    using IH by (simp add: res distinct_update)
  show ?case
  proof (cases "map_of res' ?id \<noteq> None \<and> ?id \<notin> set dup'")
    case True
    with step have e: "dup = dup' @ [?id]"
      "errs = errs' @ [?id @ '': resource repeated multiple times'']"
      by (auto simp: registerResource_step)
    from True present IH have "count_list (map Resource_Id rs) ?id = 1"
      by auto
    then have ds: "set dup = {id. 1 < count_list (map Resource_Id (rs @ [r])) id}"
      using IH by (auto simp: e)
    have es: "set errs = (\<lambda>id. id @ '': resource repeated multiple times'') ` set dup"
      using IH by (simp add: e)
    from m d ds es show ?thesis
      by blast
  next
    case False
    with step have e: "dup = dup'" "errs = errs'"
      by (auto simp: registerResource_step)
    from False present IH have "count_list (map Resource_Id rs) ?id = 0 \<or> 1 < count_list (map Resource_Id rs) ?id"
      by auto
    then have ds: "set dup = {id. 1 < count_list (map Resource_Id (rs @ [r])) id}"
      using IH by (auto simp: e)
    have es: "set errs = (\<lambda>id. id @ '': resource repeated multiple times'') ` set dup"
      using IH by (simp add: e)
    from m d ds es show ?thesis
      by blast
  qed
qed

lemma registered_declared: "map_of (registered (Resources c)) = declared c"
  using registered_invariant [of "Resources c"]
  by (cases "foldl registerResource ([], [], []) (Resources c)") (simp add: registered_def declared_def)

lemma registered_distinct: "distinct (map fst (registered rs))"
  using registered_invariant [of rs]
  by (cases "foldl registerResource ([], [], []) rs") (simp add: registered_def)

lemma set_repeated:
  "set (repeated rs) = {id @ '': resource repeated multiple times'' | id. 1 < count_list (map Resource_Id rs) id}"
  using registered_invariant [of rs]
  by (cases "foldl registerResource ([], [], []) rs") (auto simp: repeated_def)

lemma registered_entries:
  "(n, r) \<in> set (registered (Resources c)) \<longleftrightarrow> declared c n = Some r"
  using registered_distinct [of "Resources c"] registered_declared [of c]
  by (metis map_of_eq_Some_iff)

text \<open>
  \<^verbatim>\<open>errs\<close> at the end of \<^verbatim>\<open>Validate\<close>, as the concatenation of what the seven loops append.
\<close>

lemma Config_Validate_errs_parts:
  "Config_Validate_errs x c =
     map (\<lambda>k. ''Unknown root level key: '' @ k) (unknownKeys c)
     @ concat (map (checkVariable x) (Config.Variables c))
     @ concat (map (\<lambda>(source, vs). concat (map
          (checkUserVariable
             (foldl (\<lambda>varMap v. AList.update (Variable.Name v) v varMap) [] (Config.Variables c))
             source) vs))
        (rangeVars x (Config_allVariables c)))
     @ repeated (Resources c)
     @ concat (map (checkResource (registered (Resources c)))
        (rangeResources x (registered (Resources c))))
     @ concat (map (\<lambda>(source, vs). concat (map
          (checkResourceVariable (registered (Resources c)) source) vs))
        (rangeVarsAgain x (Config_allVariables c)))
     @ concat (map checkOutput (Outputs c))"
proof -
  let ?errs0 = "map (\<lambda>k. ''Unknown root level key: '' @ k) (unknownKeys c)
     @ concat (map (checkVariable x) (Config.Variables c))
     @ concat (map (\<lambda>(source, vs). concat (map
          (checkUserVariable
             (foldl (\<lambda>varMap v. AList.update (Variable.Name v) v varMap) [] (Config.Variables c))
             source) vs))
        (rangeVars x (Config_allVariables c)))"
  obtain res dup errs where
    s: "foldl registerResource ([], [], ?errs0) (Resources c) = (res, dup, errs)"
    by (cases "foldl registerResource ([], [], ?errs0) (Resources c)") auto
  from registered_loop [OF s] have r: "res = registered (Resources c)"
    "errs = ?errs0 @ repeated (Resources c)"
    by simp_all
  have keys: "foldl (\<lambda>errs k. errs @ [''Unknown root level key: '' @ k]) [] ks
      = map (\<lambda>k. ''Unknown root level key: '' @ k) ks" for ks
    using foldl_append_errs [of "\<lambda>k. [''Unknown root level key: '' @ k]" "[]" ks]
    by (simp add: concat_map_singleton)
  show ?thesis
    unfolding Config_Validate_errs_def Let_def keys foldl_append_errs foldl_append_nested
    using s r by simp
qed

lemma set_permutes: "permutes visit \<Longrightarrow> set (visit entries) = set entries"
  unfolding permutes_def by (metis set_mset_mset)

lemma pairs_permutes: "permutes visit \<Longrightarrow> pairs (visit entries) = pairs entries"
  by (simp add: pairs_def set_permutes)

lemma Variable_Type_Name: "Variable.Name (snd (Variable_Type x v)) = Variable.Name v"
  by (simp add: Variable_Type_def split: option.split)

text \<open>
  The errors of each loop body, as sets.
\<close>

lemma mem_checkVariable:
  "e \<in> set (checkVariable x v) \<longleftrightarrow>
     e = ''Variable '' @ quoted (Variable.Name v) @ '': must be string or mapping''
       \<and> fst (Variable_Type x v) = VariableTypeUnknown
     \<or> e = ''Variable '' @ quoted (Variable.Name v) @ '': cannot contain interpolations''
       \<and> fst (Variable_Type x v) \<noteq> VariableTypeUnknown
       \<and> walk x (Default (snd (Variable_Type x v))) = (True, None)"
proof -
  obtain t v' where tv: "Variable_Type x v = (t, v')"
    by (cases "Variable_Type x v")
  then have n: "Variable.Name v' = Variable.Name v"
    using Variable_Type_Name [of x v] by simp
  obtain interp err where w: "walk x (Default v') = (interp, err)"
    by (cases "walk x (Default v')")
  show ?thesis
    by (cases t; cases err) (auto simp: checkVariable_def tv n w)
qed

lemma set_checkVariables:
  "set (concat (map (checkVariable x) vs)) =
     {''Variable '' @ quoted (Variable.Name v) @ '': must be string or mapping'' | v.
        v \<in> set vs \<and> fst (Variable_Type x v) = VariableTypeUnknown}
     \<union> {''Variable '' @ quoted (Variable.Name v) @ '': cannot contain interpolations'' | v.
        v \<in> set vs \<and> fst (Variable_Type x v) \<noteq> VariableTypeUnknown
        \<and> walk x (Default (snd (Variable_Type x v))) = (True, None)}"
  (is "?lhs = ?A \<union> ?B")
proof (rule set_eqI)
  fix e
  have l: "e \<in> ?lhs \<longleftrightarrow> (\<exists>v \<in> set vs. e \<in> set (checkVariable x v))"
    by auto
  show "e \<in> ?lhs \<longleftrightarrow> e \<in> ?A \<union> ?B"
  proof
    assume "e \<in> ?lhs"
    with l obtain v where v: "v \<in> set vs" "e \<in> set (checkVariable x v)"
      by blast
    from v(2) have "e = ''Variable '' @ quoted (Variable.Name v) @ '': must be string or mapping''
       \<and> fst (Variable_Type x v) = VariableTypeUnknown
     \<or> e = ''Variable '' @ quoted (Variable.Name v) @ '': cannot contain interpolations''
       \<and> fst (Variable_Type x v) \<noteq> VariableTypeUnknown
       \<and> walk x (Default (snd (Variable_Type x v))) = (True, None)"
      by (simp only: mem_checkVariable)
    with v(1) show "e \<in> ?A \<union> ?B"
      by blast
  next
    assume "e \<in> ?A \<union> ?B"
    then obtain v where v: "v \<in> set vs"
      and "e = ''Variable '' @ quoted (Variable.Name v) @ '': must be string or mapping''
       \<and> fst (Variable_Type x v) = VariableTypeUnknown
     \<or> e = ''Variable '' @ quoted (Variable.Name v) @ '': cannot contain interpolations''
       \<and> fst (Variable_Type x v) \<noteq> VariableTypeUnknown
       \<and> walk x (Default (snd (Variable_Type x v))) = (True, None)"
      by blast
    then have "e \<in> set (checkVariable x v)"
      by (simp only: mem_checkVariable)
    with v l show "e \<in> ?lhs"
      by blast
  qed
qed

lemma set_checkUserVariable:
  "set (checkUserVariable varMap source v) =
     {source @ '': unknown variable referenced: '' @ name | name.
        v = UserVariable name \<and> map_of varMap name = None}"
  by (cases v) (auto split: option.split)

lemma set_checkResourceVariable:
  "set (checkResourceVariable resources source v) =
     {source @ '': unknown resource '' @ quoted (type @ ''.'' @ name)
        @ '' referenced in variable '' @ fullKey | type name multi fullKey.
        v = ResourceVariable type name multi fullKey \<and> map_of resources (type @ ''.'' @ name) = None}
     \<union> {source @ '': variable '' @ quoted fullKey
        @ '' must specify index for multi-count resource '' @ (type @ ''.'' @ name)
        | type name fullKey r.
        v = ResourceVariable type name False fullKey
        \<and> map_of resources (type @ ''.'' @ name) = Some r \<and> Count r > 1}"
  by (cases v) (auto simp: Let_def split: option.split)

lemma set_checkResource:
  "set (checkResource resources (n, r)) =
     {e. e = n @ '': count must be greater than or equal to 1'' \<and> Count r < 1}
     \<union> {n @ '': resource depends on non-existent resource '' @ quoted d | d.
          d \<in> set (DependsOn r) \<and> map_of resources d = None}"
proof -
  have d: "set (case map_of resources d of
                  None \<Rightarrow> [n @ '': resource depends on non-existent resource '' @ quoted d]
                | Some r' \<Rightarrow> [])
      = {e. e = n @ '': resource depends on non-existent resource '' @ quoted d
            \<and> map_of resources d = None}" for d
    by (cases "map_of resources d") simp_all
  have "set (checkResource resources (n, r)) =
      set (if Count r < 1 then [n @ '': count must be greater than or equal to 1''] else [])
      \<union> (\<Union>d \<in> set (DependsOn r). {e. e = n @ '': resource depends on non-existent resource '' @ quoted d
            \<and> map_of resources d = None})"
    unfolding checkResource_def prod.case set_append set_concat set_map image_image d ..
  also have "\<dots> = {e. e = n @ '': count must be greater than or equal to 1'' \<and> Count r < 1}
     \<union> {n @ '': resource depends on non-existent resource '' @ quoted d | d.
          d \<in> set (DependsOn r) \<and> map_of resources d = None}"
    by (cases "Count r < 1") (simp_all only: if_True if_False list.set, blast+)
  finally show ?thesis .
qed

lemma set_checkOutput:
  "set (checkOutput out) =
     {e. e = Output.Name out @ '': output should only have 'value' field''
        \<and> (\<exists>k \<in> fst ` set (Raw (Output.RawConfig out)). k \<noteq> ''value'')}"
  by (force simp: checkOutput_def list_ex_iff)

lemma set_unknownKeys:
  "set (map (\<lambda>k. ''Unknown root level key: '' @ k) ks) = {''Unknown root level key: '' @ k | k. k \<in> set ks}"
  unfolding set_map by blast

lemma set_userVariables:
  assumes "permutes (rangeVars x)"
  shows "set (concat (map (\<lambda>(source, vs). concat (map
          (checkUserVariable
             (foldl (\<lambda>varMap v. AList.update (Variable.Name v) v varMap) [] (Config.Variables c))
             source) vs))
        (rangeVars x (Config_allVariables c))))
    = {source @ '': unknown variable referenced: '' @ name | source name.
          (source, UserVariable name) \<in> references c
          \<and> name \<notin> Variable.Name ` set (Config.Variables c)}"
  unfolding set_concat_nested pairs_permutes [OF assms] pairs_allVariables
    set_checkUserVariable varMap_None
  by blast

lemma set_resourceVariables:
  assumes "permutes (rangeVarsAgain x)"
  shows "set (concat (map (\<lambda>(source, vs). concat (map
          (checkResourceVariable (registered (Resources c)) source) vs))
        (rangeVarsAgain x (Config_allVariables c))))
    = {source @ '': unknown resource '' @ quoted (type @ ''.'' @ name)
            @ '' referenced in variable '' @ fullKey | source type name multi fullKey.
          (source, ResourceVariable type name multi fullKey) \<in> references c
          \<and> declared c (type @ ''.'' @ name) = None}
     \<union> {source @ '': variable '' @ quoted fullKey
            @ '' must specify index for multi-count resource '' @ (type @ ''.'' @ name)
          | source type name fullKey r.
          (source, ResourceVariable type name False fullKey) \<in> references c
          \<and> declared c (type @ ''.'' @ name) = Some r \<and> Count r > 1}"
  unfolding set_concat_nested pairs_permutes [OF assms] pairs_allVariables
    set_checkResourceVariable registered_declared
  by blast

lemma set_registered: "set (registered (Resources c)) = {(n, r). declared c n = Some r}"
  using registered_entries [of _ _ c] by auto

lemma set_resources:
  assumes "permutes (rangeResources x)"
  shows "set (concat (map (checkResource (registered (Resources c)))
        (rangeResources x (registered (Resources c)))))
    = {id @ '': count must be greater than or equal to 1'' | id r.
          declared c id = Some r \<and> Count r < 1}
     \<union> {id @ '': resource depends on non-existent resource '' @ quoted d | id r d.
          declared c id = Some r \<and> d \<in> set (DependsOn r) \<and> declared c d = None}"
proof -
  have "set (concat (map (checkResource (registered (Resources c)))
        (rangeResources x (registered (Resources c)))))
    = (\<Union>(n, r) \<in> set (registered (Resources c)). set (checkResource (registered (Resources c)) (n, r)))"
    unfolding set_concat set_map set_permutes [OF assms] by auto
  also have "\<dots> = (\<Union>(n, r) \<in> {(n, r). declared c n = Some r}.
      {e. e = n @ '': count must be greater than or equal to 1'' \<and> Count r < 1}
     \<union> {n @ '': resource depends on non-existent resource '' @ quoted d | d.
          d \<in> set (DependsOn r) \<and> declared c d = None})"
    unfolding set_checkResource registered_declared set_registered ..
  also have "\<dots> = {id @ '': count must be greater than or equal to 1'' | id r.
          declared c id = Some r \<and> Count r < 1}
     \<union> {id @ '': resource depends on non-existent resource '' @ quoted d | id r d.
          declared c id = Some r \<and> d \<in> set (DependsOn r) \<and> declared c d = None}"
    by blast
  finally show ?thesis .
qed

lemma set_outputs:
  "set (concat (map checkOutput outs))
    = {Output.Name out @ '': output should only have 'value' field'' | out.
          out \<in> set outs \<and> (\<exists>k \<in> fst ` set (Raw (Output.RawConfig out)). k \<noteq> ''value'')}"
proof -
  have "set (concat (map checkOutput outs)) = (\<Union>out \<in> set outs. set (checkOutput out))"
    by simp
  also have "\<dots> = {Output.Name out @ '': output should only have 'value' field'' | out.
          out \<in> set outs \<and> (\<exists>k \<in> fst ` set (Raw (Output.RawConfig out)). k \<noteq> ''value'')}"
    unfolding set_checkOutput by blast
  finally show ?thesis .
qed

text \<open>
  The errors \<^verbatim>\<open>Validate\<close> collects are exactly the violations of the configuration.
\<close>

lemma set_Config_Validate_errs:
  assumes "permutes (rangeVars x)" and "permutes (rangeResources x)"
    and "permutes (rangeVarsAgain x)"
  shows "set (Config_Validate_errs x c) = violations x c"
  unfolding Config_Validate_errs_parts violations_def set_append
    set_unknownKeys set_checkVariables set_userVariables [OF assms(1)] set_repeated
    set_resources [OF assms(2)] set_resourceVariables [OF assms(3)] set_outputs
  by (simp only: Un_assoc)

text \<open>
  C6, as stated, at two resources with the same id, the first with \<^verbatim>\<open>Count\<close> 0 and the second
  with \<^verbatim>\<open>Count\<close> 1: the loop that checks counts and dependencies ranges over the map
  \<^verbatim>\<open>resources\<close>, which holds the second resource only. The multi-error holds the repeated
  id and no error for the count below 1.
\<close>

theorem Validate_skips_shadowed_resource_counterexample:
  "ex_instance 0 \<in> set (Resources ex_shadowed)
   \<and> Count (ex_instance 0) < 1
   \<and> Config_Validate ex_config_externals ex_shadowed
       = Some [''aws_instance.web: resource repeated multiple times'']
   \<and> ''aws_instance.web: count must be greater than or equal to 1''
       \<notin> set (Config_Validate_errs ex_config_externals ex_shadowed)"
  by (simp add: Config_Validate_def Config_Validate_errs_def Config_allVariables_def
      appendVariables_def registerResource_def checkResource_def Resource_Id_def
      ex_shadowed_def ex_instance_def ex_raw_def ex_config_externals_def)

text \<open>
  C6, amended. \<^verbatim>\<open>Validate\<close> never stops at the first error: whatever the order in which the
  loops visit the maps, the multi-error it returns holds exactly the violations of the
  configuration: every unknown root-level key, every variable of unknown type or with
  interpolations in its default, every reference to an unknown user variable, every
  resource id declared more than once, for each id a count below 1 and each dependency on
  a non-existent resource of the resource declared last under that id, every reference to
  an unknown resource or to a multi-count resource without an index, and every output with
  a field other than \<^verbatim>\<open>value\<close>. It returns nil if and only if there is no such violation.
\<close>

theorem Validate_accumulates_violations:
  assumes "permutes (rangeVars x)"
    and "permutes (rangeResources x)"
    and "permutes (rangeVarsAgain x)"
  shows "case Config_Validate x c of
           None \<Rightarrow> violations x c = {}
         | Some errs \<Rightarrow> errs \<noteq> [] \<and> set errs = violations x c"
proof (cases "Config_Validate_errs x c = []")
  case True
  with set_Config_Validate_errs [OF assms, of c] show ?thesis
    by (simp add: Config_Validate_def)
next
  case False
  with set_Config_Validate_errs [OF assms, of c] show ?thesis
    by (simp add: Config_Validate_def)
qed

theorem Validate_accumulates_violations_witness:
  "permutes (rangeVars ex_config_externals)
   \<and> permutes (rangeResources ex_config_externals)
   \<and> permutes (rangeVarsAgain ex_config_externals)
   \<and> Config_Validate ex_config_externals ex_config =
       Some [''Unknown root level key: provisioner'',
             ''Variable '' @ quoted ''zone'' @ '': must be string or mapping'',
             ''resource '' @ quoted ''aws_instance.db'' @ '': unknown variable referenced: size'',
             ''aws_instance.db: count must be greater than or equal to 1'',
             ''aws_instance.db: resource depends on non-existent resource '' @ quoted ''aws_elb.lb'',
             ''ip: output should only have 'value' field'']
   \<and> violations ex_config_externals ex_config =
       {''Unknown root level key: provisioner'',
        ''Variable '' @ quoted ''zone'' @ '': must be string or mapping'',
        ''resource '' @ quoted ''aws_instance.db'' @ '': unknown variable referenced: size'',
        ''aws_instance.db: count must be greater than or equal to 1'',
        ''aws_instance.db: resource depends on non-existent resource '' @ quoted ''aws_elb.lb'',
        ''ip: output should only have 'value' field''}"
proof -
  have p: "permutes (rangeVars ex_config_externals)"
    "permutes (rangeResources ex_config_externals)"
    "permutes (rangeVarsAgain ex_config_externals)"
    by (simp_all add: permutes_def ex_config_externals_def)
  have v: "Config_Validate ex_config_externals ex_config =
       Some [''Unknown root level key: provisioner'',
             ''Variable '' @ quoted ''zone'' @ '': must be string or mapping'',
             ''resource '' @ quoted ''aws_instance.db'' @ '': unknown variable referenced: size'',
             ''aws_instance.db: count must be greater than or equal to 1'',
             ''aws_instance.db: resource depends on non-existent resource '' @ quoted ''aws_elb.lb'',
             ''ip: output should only have 'value' field'']"
    by (simp add: Config_Validate_def Config_Validate_errs_def Config_allVariables_def
        appendVariables_def appendVariable_def registerResource_def checkResource_def
        checkVariable_def Variable_Type_def checkOutput_def Resource_Id_def quoted_def
        ex_config_def ex_config_externals_def)
  from Validate_accumulates_violations [OF p, of ex_config] v
  have "set [''Unknown root level key: provisioner'',
             ''Variable '' @ quoted ''zone'' @ '': must be string or mapping'',
             ''resource '' @ quoted ''aws_instance.db'' @ '': unknown variable referenced: size'',
             ''aws_instance.db: count must be greater than or equal to 1'',
             ''aws_instance.db: resource depends on non-existent resource '' @ quoted ''aws_elb.lb'',
             ''ip: output should only have 'value' field''] = violations ex_config_externals ex_config"
    by simp
  then have "violations ex_config_externals ex_config =
       {''Unknown root level key: provisioner'',
        ''Variable '' @ quoted ''zone'' @ '': must be string or mapping'',
        ''resource '' @ quoted ''aws_instance.db'' @ '': unknown variable referenced: size'',
        ''aws_instance.db: count must be greater than or equal to 1'',
        ''aws_instance.db: resource depends on non-existent resource '' @ quoted ''aws_elb.lb'',
        ''ip: output should only have 'value' field''}"
    by (simp only: list.set)
  with p v show ?thesis
    by blast
qed
end
